theory Spec2Isabelle
  imports Main "HOL-Library.Word"
begin

section \<open>Bytes, errors and the packet transport\<close>

type_synonym byte = "8 word"

text \<open>
  Go error values. \<open>DBBError\<close> is the device error built by \<open>bitbox.NewError\<close> from the
  message and code of an \<open>error\<close> reply; \<open>New\<close> is \<open>errors.New\<close> / \<open>errp.New\<close>;
  \<open>WithMessage\<close> and \<open>WithStack\<close> are the wrappers of \<open>pkg/errors\<close>, which keep the wrapped
  error as their cause; \<open>EOF\<close> is the transport's read error; \<open>Panic\<close> is a Go panic.
\<close>

datatype error =
    DBBError string int
  | New string
  | WithMessage error string
  | WithStack error
  | EOF
  | Panic string

text \<open>\<open>errp.Cause\<close>: strips the wrappers.\<close>

fun Cause :: "error \<Rightarrow> error" where
  "Cause (WithMessage e m) = Cause e"
| "Cause (WithStack e) = Cause e"
| "Cause e = e"

text \<open>
  The transport is an \<open>io.ReadWriteCloser\<close>. The loopback transport used for the framing
  round trip is a queue of written reports: \<open>Write\<close> appends one report and never fails,
  \<open>Read\<close> hands out the oldest report (at most as many bytes as the caller's buffer holds)
  and fails on an empty queue.
\<close>

type_synonym device = "byte list list"

definition dev_Write :: "byte list \<Rightarrow> device \<Rightarrow> error + device" where
  "dev_Write p dev = Inr (dev @ [p])"

definition dev_Read :: "nat \<Rightarrow> device \<Rightarrow> error + (byte list \<times> device)" where
  "dev_Read n dev = (case dev of [] \<Rightarrow> Inl EOF | p # ps \<Rightarrow> Inr (take n p, ps))"

definition usbReportSize :: nat where
  "usbReportSize = 64"

text \<open>\<open>hwwCID = 0xff000000\<close>, written big-endian as a \<open>uint32\<close>.\<close>

definition hwwCID :: "byte list" where
  "hwwCID = [0xff, 0, 0, 0]"

definition u2fHIDTypeInit :: byte where
  "u2fHIDTypeInit = 0x80"

definition u2fHIDVendorFirst :: byte where
  "u2fHIDVendorFirst = or u2fHIDTypeInit 0x40"

definition hwwCMD :: byte where
  "hwwCMD = or u2fHIDVendorFirst 0x01"

subsection \<open>sendFrame\<close>

text \<open>
  The closure \<open>send\<close> of \<open>sendFrame\<close>: the header, then the next
  \<open>usbReportSize - len(header)\<close> bytes of the read buffer, then \<open>0xee\<close> up to the report
  size; the report is written to the device. It returns the rest of the read buffer and
  the device.
\<close>

definition send :: "byte list \<Rightarrow> byte list \<Rightarrow> device \<Rightarrow> error + (byte list \<times> device)" where
  "send header readFrom dev =
     (let buf = header @ take (usbReportSize - length header) readFrom;
          rest = drop (usbReportSize - length header) readFrom;
          buf = buf @ replicate (usbReportSize - length buf) 0xee
      in case dev_Write buf dev of
           Inl e \<Rightarrow> Inl (WithMessage (WithStack e) ''Failed to send message'')
         | Inr dev' \<Rightarrow> Inr (rest, dev'))"

text \<open>
  The continuation loop \<open>for seq := 0; readBuffer.Len() > 0; seq++\<close>; the sequence number
  is written as \<open>uint8(seq)\<close>.
\<close>

function sendCont :: "nat \<Rightarrow> byte list \<Rightarrow> device \<Rightarrow> error + device" where
  "sendCont seq readBuffer dev =
     (if length readBuffer > 0 then
        (case send (hwwCID @ [of_nat seq]) readBuffer dev of
           Inl e \<Rightarrow> Inl e
         | Inr (rest, dev') \<Rightarrow> sendCont (seq + 1) rest dev')
      else Inr dev)"
  by pat_completeness auto
termination
  by (relation "measure (\<lambda>(seq, readBuffer, dev). length readBuffer)")
    (auto simp: send_def dev_Write_def hwwCID_def usbReportSize_def Let_def)

text \<open>
  \<open>sendFrame\<close>: nothing is written for the empty message; otherwise the init frame
  carries the channel id, the command byte and \<open>uint16(dataLen & 0xFFFF)\<close> big-endian.
\<close>

definition sendFrame :: "byte list \<Rightarrow> device \<Rightarrow> error + device" where
  "sendFrame msg dev =
     (let dataLen = length msg in
      if dataLen = 0 then Inr dev
      else
        let len16 = dataLen mod 65536;
            header = hwwCID @ [hwwCMD] @ [of_nat (len16 div 256), of_nat (len16 mod 256)]
        in case send header msg dev of
             Inl e \<Rightarrow> Inl e
           | Inr (readBuffer, dev') \<Rightarrow> sendCont 0 readBuffer dev')"

subsection \<open>readFrame\<close>

text \<open>
  The loop \<open>for idx < dataLen\<close> of \<open>readFrame\<close>: each pass reads one report into the
  64-byte buffer and appends \<open>read[5:readLen]\<close>.
\<close>

function readCont :: "device \<Rightarrow> nat \<Rightarrow> nat \<Rightarrow> byte list \<Rightarrow> error + (byte list \<times> device)" where
  "readCont dev dataLen idx data =
     (if idx < dataLen then
        (case dev_Read usbReportSize dev of
           Inl e \<Rightarrow> Inl (WithStack e)
         | Inr (rd, dev') \<Rightarrow>
             if length rd < 5 then Inl (New ''expected minimum read length of 7'')
             else readCont dev' dataLen (idx + (length rd - 5)) (data @ drop 5 rd))
      else Inr (data, dev))"
  by pat_completeness auto
termination
  by (relation "measure (\<lambda>(dev, dataLen, idx, data). length dev)")
    (auto simp: dev_Read_def split: list.splits)

definition readFrame :: "device \<Rightarrow> error + (byte list \<times> device)" where
  "readFrame dev =
     (case dev_Read usbReportSize dev of
        Inl e \<Rightarrow> Inl (WithStack e)
      | Inr (rd, dev') \<Rightarrow>
          let readLen = length rd in
          if readLen < 7 then Inl (New ''expected minimum read length of 7'')
          else if rd ! 0 \<noteq> 0xff \<or> rd ! 1 \<noteq> 0 \<or> rd ! 2 \<noteq> 0 \<or> rd ! 3 \<noteq> 0
            then Inl (New ''USB command ID mismatch'')
          else if rd ! 4 \<noteq> hwwCMD then Inl (New ''USB command frame mismatch'')
          else
            let dataLen = unat (rd ! 5) * 256 + unat (rd ! 6);
                data = drop 7 rd;
                idx = usbReportSize - 7
            in readCont dev' dataLen idx data)"

section \<open>Device session\<close>

subsection \<open>Replies, the communication interface and the device\<close>

text \<open>
  A decoded JSON value (\<open>interface{}\<close> after \<open>json.Unmarshal\<close>); a reply is a
  \<open>map[string]interface{}\<close>, read with \<open>map_of\<close>. Numbers are the whole numbers the device
  sends. Commands are handed to the interface as the JSON value that the device code
  marshals; the serialisation to text is not part of the model.
\<close>

datatype json =
    JNull
  | JBool bool
  | JNumber int
  | JString string
  | JArray "json list"
  | JObject "(string \<times> json) list"

type_synonym reply = "(string \<times> json) list"

text \<open>
  \<open>CommunicationInterface\<close>: the two methods the modelled operations call, over the state
  \<open>'c\<close> of whatever implements it (the USB channel, or a mock). Each call returns the reply
  or the error, and the next state.
\<close>

record 'c CommunicationInterface =
  SendPlain :: "json \<Rightarrow> 'c \<Rightarrow> (error + reply) \<times> 'c"
  SendEncrypt :: "json \<Rightarrow> string \<Rightarrow> 'c \<Rightarrow> (error + reply) \<times> 'c"

text \<open>
  The struct behind \<open>bootloaderStatus\<close> is declared elsewhere in the repository; \<open>Status\<close>
  only tests the pointer against \<open>nil\<close> (\<open>None\<close>).
\<close>

datatype BootloaderStatus = BootloaderStatus

text \<open>
  The fields of \<open>Device\<close> that the session state is derived from, and the state of the
  communication. The device id, the event callback, the pairing channel and the log entry
  are not read by the operations below.
\<close>

record 'c Device =
  communication :: 'c
  bootloaderStatus :: "BootloaderStatus option"
  initialized :: bool
  password :: string
  seeded :: bool

text \<open>
  Modelled from the spec: the \<open>Status\<close> constants are declared elsewhere in the repository;
  the spec lists the session states Bootloader, Uninitialized, Initialized, LoggedIn, Seeded.
\<close>

datatype Status =
    StatusBootloader
  | StatusUninitialized
  | StatusInitialized
  | StatusLoggedIn
  | StatusSeeded

definition Status :: "'c Device \<Rightarrow> Status" where
  "Status dbb =
     (if bootloaderStatus dbb \<noteq> None then StatusBootloader
      else if seeded dbb then StatusSeeded
      else if password dbb \<noteq> [] then StatusLoggedIn
      else if initialized dbb then StatusInitialized
      else StatusUninitialized)"

definition sendPlain ::
  "'c CommunicationInterface \<Rightarrow> 'c Device \<Rightarrow> string \<Rightarrow> string \<Rightarrow> (error + reply) \<times> 'c Device" where
  "sendPlain ci dbb key val =
     (case SendPlain ci (JObject [(key, JString val)]) (communication dbb) of
        (r, c') \<Rightarrow> (r, dbb\<lparr>communication := c'\<rparr>))"

definition sendJ ::
  "'c CommunicationInterface \<Rightarrow> 'c Device \<Rightarrow> json \<Rightarrow> string \<Rightarrow> (error + reply) \<times> 'c Device" where
  \<comment> \<open>\<open>Device.send\<close>\<close>
  "sendJ ci dbb v pw =
     (case SendEncrypt ci v pw (communication dbb) of
        (r, c') \<Rightarrow> (r, dbb\<lparr>communication := c'\<rparr>))"

definition sendKV ::
  "'c CommunicationInterface \<Rightarrow> 'c Device \<Rightarrow> string \<Rightarrow> string \<Rightarrow> string
     \<Rightarrow> (error + reply) \<times> 'c Device" where
  "sendKV ci dbb key v pw = sendJ ci dbb (JObject [(key, JString v)]) pw"

subsection \<open>SetPassword, Reset\<close>

definition SetPassword ::
  "'c CommunicationInterface \<Rightarrow> 'c Device \<Rightarrow> string \<Rightarrow> (error + unit) \<times> 'c Device" where
  "SetPassword ci dbb pw =
     (case sendPlain ci dbb ''password'' pw of
        (Inl err, dbb') \<Rightarrow> (Inl (WithMessage err ''Failed to set password''), dbb')
      | (Inr reply, dbb') \<Rightarrow>
          if map_of reply ''password'' \<noteq> Some (JString ''success'')
          then (Inl (New ''Unexpected reply''), dbb')
          else (Inr (), dbb'\<lparr>password := pw\<rparr>))"

text \<open>
  \<open>IsErrorAbort\<close>. The codes \<open>ErrTouchAbort\<close> and \<open>ErrTouchTimeout\<close> are constants declared
  elsewhere in the repository and are parameters here.
\<close>

definition IsErrorAbort :: "int \<Rightarrow> int \<Rightarrow> error \<Rightarrow> bool" where
  "IsErrorAbort ErrTouchAbort ErrTouchTimeout err =
     (case Cause err of
        DBBError m code \<Rightarrow> code = ErrTouchAbort \<or> code = ErrTouchTimeout
      | _ \<Rightarrow> False)"

text \<open>\<open>Reset\<close> returns \<open>(bool, error)\<close>: \<open>Inr b\<close> is \<open>(b, nil)\<close>, \<open>Inl e\<close> is \<open>(false, e)\<close>.\<close>

definition Reset ::
  "int \<Rightarrow> int \<Rightarrow> 'c CommunicationInterface \<Rightarrow> 'c Device \<Rightarrow> (error + bool) \<times> 'c Device" where
  "Reset ErrTouchAbort ErrTouchTimeout ci dbb =
     (case sendKV ci dbb ''reset'' ''__ERASE__'' (password dbb) of
        (Inl err, dbb') \<Rightarrow>
          if IsErrorAbort ErrTouchAbort ErrTouchTimeout err then (Inr False, dbb')
          else (Inl err, dbb')
      | (Inr reply, dbb') \<Rightarrow>
          if map_of reply ''reset'' \<noteq> Some (JString ''success'')
          then (Inl (New ''unexpected reply''), dbb')
          else (Inr True, dbb'\<lparr>password := [], seeded := False, initialized := False\<rparr>))"

subsection \<open>XPub\<close>

text \<open>
  \<open>hdkeychain.NewKeyFromString\<close> and \<open>ExtendedKey.String\<close> belong to an external library and
  are parameters, over any type \<open>'k\<close> of extended keys.
\<close>

definition getXPub ::
  "'c CommunicationInterface \<Rightarrow> (string \<Rightarrow> error + 'k) \<Rightarrow> 'c Device \<Rightarrow> string
     \<Rightarrow> (error + 'k) \<times> 'c Device" where
  "getXPub ci NewKeyFromString dbb path =
     (case sendKV ci dbb ''xpub'' path (password dbb) of
        (Inl err, dbb') \<Rightarrow> (Inl err, dbb')
      | (Inr reply, dbb') \<Rightarrow>
          (case map_of reply ''xpub'' of
             Some (JString xpubStr) \<Rightarrow> (NewKeyFromString xpubStr, dbb')
           | _ \<Rightarrow> (Inl (WithStack (New ''Unexpected reply'')), dbb')))"

definition XPub ::
  "'c CommunicationInterface \<Rightarrow> (string \<Rightarrow> error + 'k) \<Rightarrow> ('k \<Rightarrow> string) \<Rightarrow> 'c Device \<Rightarrow> string
     \<Rightarrow> (error + 'k) \<times> 'c Device" where
  "XPub ci NewKeyFromString String dbb path =
     (case getXPub ci NewKeyFromString dbb path of
        (Inl err, dbb1) \<Rightarrow> (Inl err, dbb1)
      | (Inr xpub1, dbb1) \<Rightarrow>
          (case getXPub ci NewKeyFromString dbb1 path of
             (Inl err, dbb2) \<Rightarrow> (Inl err, dbb2)
           | (Inr xpub2, dbb2) \<Rightarrow>
               if String xpub1 \<noteq> String xpub2
               then (Inl (WithStack (New ''Critical: the device returned inconsistent xpubs'')), dbb2)
               else (Inr xpub1, dbb2)))"

subsection \<open>stretchKey\<close>

text \<open>\<open>hex.EncodeToString\<close>: two lower-case digits per byte.\<close>

definition hextable :: string where
  "hextable = ''0123456789abcdef''"

definition EncodeToString :: "byte list \<Rightarrow> string" where
  "EncodeToString bs =
     concat (map (\<lambda>b. [hextable ! (unat b div 16), hextable ! (unat b mod 16)]) bs)"



subsection \<open>Sign\<close>

text \<open>\<open>btcec.Signature\<close> with its fields \<open>R\<close> and \<open>S\<close>.\<close>

datatype Signature = Signature int int

text \<open>
  \<open>big.Int.SetString(s, 16)\<close> of the Go library: an optional sign (\<open>+\<close> or \<open>-\<close>), then one
  or more digits \<open>0-9\<close>, \<open>a-f\<close>, \<open>A-F\<close>, read most significant digit first; the whole string
  must be consumed. \<open>None\<close> is the result \<open>ok = false\<close>.
\<close>

definition hexDigitVal :: "char \<Rightarrow> nat option" where
  "hexDigitVal ch =
     (let c = (of_char ch :: nat) in
      if 48 \<le> c \<and> c \<le> 57 then Some (c - 48)
      else if 97 \<le> c \<and> c \<le> 102 then Some (c - 97 + 10)
      else if 65 \<le> c \<and> c \<le> 70 then Some (c - 65 + 10)
      else None)"

fun scanDigits :: "string \<Rightarrow> nat \<Rightarrow> nat option" where
  "scanDigits [] acc = Some acc"
| "scanDigits (ch # cs) acc =
     (case hexDigitVal ch of None \<Rightarrow> None | Some d \<Rightarrow> scanDigits cs (acc * 16 + d))"

definition SetString16 :: "string \<Rightarrow> int option" where
  "SetString16 s =
     (let (neg, ds) =
        (case s of
           [] \<Rightarrow> (False, [])
         | ch # r \<Rightarrow>
             if ch = CHR ''-'' then (True, r)
             else if ch = CHR ''+'' then (False, r)
             else (False, s))
      in if ds = [] then None
         else case scanDigits ds 0 of
                None \<Rightarrow> None
              | Some n \<Rightarrow> Some (if neg then - int n else int n))"

definition signatureBatchSize :: nat where
  "signatureBatchSize = 15"

text \<open>
  \<open>signBatch\<close>. After the length check the loop pairs \<open>signatureHashes[i]\<close> with
  \<open>keyPaths[i]\<close>, which is \<open>zip\<close>. The same command is sent twice.
\<close>

definition signBatch ::
  "'c CommunicationInterface \<Rightarrow> 'c Device \<Rightarrow> byte list list \<Rightarrow> string list
     \<Rightarrow> (error + reply) \<times> 'c Device" where
  "signBatch ci dbb signatureHashes keyPaths =
     (if length signatureHashes \<noteq> length keyPaths
        then (Inl (Panic ''length of keyPaths must match length of signatureHashes''), dbb)
      else if length signatureHashes > signatureBatchSize
        then (Inl (Panic ''only up to 15 signature hashes can be signed in one batch''), dbb)
      else
        let data = map (\<lambda>(signatureHash, keyPath).
                      JObject [(''hash'', JString (EncodeToString signatureHash)),
                               (''keypath'', JString keyPath)])
                     (zip signatureHashes keyPaths);
            cmd = JObject [(''sign'', JObject [(''data'', JArray data)])]
        in case sendJ ci dbb cmd (password dbb) of
             (Inl err, dbb1) \<Rightarrow> (Inl (WithMessage err ''Failed to sign batch (1)''), dbb1)
           | (Inr echo, dbb1) \<Rightarrow>
               (case sendJ ci dbb1 cmd (password dbb1) of
                  (Inl err, dbb2) \<Rightarrow> (Inl (WithMessage err ''Failed to sign batch (2)''), dbb2)
                | (Inr reply, dbb2) \<Rightarrow> (Inr reply, dbb2)))"

text \<open>
  The inner loop of \<open>Sign\<close> over the entries of the \<open>sign\<close> array of one reply; the
  signatures parsed so far are the accumulator.
\<close>

fun appendSigs :: "json list \<Rightarrow> Signature list \<Rightarrow> error + Signature list" where
  "appendSigs [] signatures = Inr signatures"
| "appendSigs (sig # sigs) signatures =
     (case sig of
        JObject sigMap \<Rightarrow>
          (case map_of sigMap ''sig'' of
             Some (JString hexSig) \<Rightarrow>
               if length hexSig \<noteq> 128
                 then Inl (New ''Unexpected reply: field sig must be 128 byte long'')
               else
                 (case SetString16 (take 64 hexSig) of
                    None \<Rightarrow> Inl (New ''Unexpected reply: R in sig must be a hex value'')
                  | Some sigR \<Rightarrow>
                      (case SetString16 (drop 64 hexSig) of
                         None \<Rightarrow> Inl (New ''Unexpected reply: S in sig must be a hex value'')
                       | Some sigS \<Rightarrow> appendSigs sigs (signatures @ [Signature sigR sigS])))
           | _ \<Rightarrow> Inl (New ''Unexpected reply: field sig is missing in sign map''))
      | _ \<Rightarrow> Inl (New ''Unexpected reply: sign must be a map''))"

text \<open>
  The outer loop \<open>for i := 0; i < len(signatureHashes); i = i + signatureBatchSize\<close>;
  \<open>xs[i:upper]\<close> is \<open>take (upper - i) (drop i xs)\<close>.
\<close>

function SignLoop ::
  "'c CommunicationInterface \<Rightarrow> 'c Device \<Rightarrow> byte list list \<Rightarrow> string list \<Rightarrow> nat
     \<Rightarrow> Signature list \<Rightarrow> (error + Signature list) \<times> 'c Device" where
  "SignLoop ci dbb signatureHashes keyPaths i signatures =
     (if i < length signatureHashes then
        (let upper = (if i + signatureBatchSize > length signatureHashes
                      then length signatureHashes else i + signatureBatchSize)
         in case signBatch ci dbb (take (upper - i) (drop i signatureHashes))
                   (take (upper - i) (drop i keyPaths)) of
              (Inl err, dbb') \<Rightarrow> (Inl err, dbb')
            | (Inr reply, dbb') \<Rightarrow>
                (case map_of reply ''sign'' of
                   Some (JArray sigs) \<Rightarrow>
                     (case appendSigs sigs signatures of
                        Inl err \<Rightarrow> (Inl err, dbb')
                      | Inr signatures' \<Rightarrow>
                          SignLoop ci dbb' signatureHashes keyPaths (i + signatureBatchSize)
                            signatures')
                 | _ \<Rightarrow> (Inl (New ''Unexpected reply: field sign is missing''), dbb')))
      else (Inr signatures, dbb))"
  by pat_completeness auto
termination
  by (relation "measure (\<lambda>(ci, dbb, signatureHashes, keyPaths, i, signatures).
        length signatureHashes - i)")
    (auto simp: signatureBatchSize_def)

definition Sign ::
  "'c CommunicationInterface \<Rightarrow> 'c Device \<Rightarrow> byte list list \<Rightarrow> string list
     \<Rightarrow> (error + Signature list) \<times> 'c Device" where
  "Sign ci dbb signatureHashes keyPaths =
     (if length signatureHashes \<noteq> length keyPaths
        then (Inl (Panic ''len of keyPaths must match len of signatureHashes''), dbb)
      else if length signatureHashes = 0
        then (Inl (Panic ''non-empty list of signature hashes and keypaths expected''), dbb)
      else SignLoop ci dbb signatureHashes keyPaths 0 [])"

section \<open>Transaction signer\<close>

text \<open>The parts of \<open>wire.MsgTx\<close> that signing reads and writes.\<close>

record OutPoint =
  Hash :: "byte list"
  Index :: nat

record TxIn =
  PreviousOutPoint :: OutPoint
  SignatureScript :: "byte list"
  Witness :: "byte list list"
  Sequence :: nat

record TxOut =
  Value :: int
  PkScript :: "byte list"

record MsgTx =
  Version :: int
  TxIn :: "TxIn list"
  TxOut :: "TxOut list"
  LockTime :: nat

text \<open>
  \<open>transactions.TxOut\<close>: a \<open>wire.TxOut\<close> together with the address that owns it. The
  address type and its methods \<open>KeyPath\<close>, \<open>SigHashData\<close> and \<open>InputData\<close> live in
  another package of the repository and are parameters.
\<close>

record 'a SpentTxOut = TxOut +
  Address :: 'a

record 'a AddressOps =
  KeyPath :: "'a \<Rightarrow> string"
  SigHashData :: "'a \<Rightarrow> bool \<times> byte list"
  InputData :: "'a \<Rightarrow> Signature \<Rightarrow> byte list \<times> byte list list"

text \<open>
  The functions of the external libraries \<open>txscript\<close> and \<open>txsort\<close>, as parameters:
  \<open>'h\<close> is \<open>*txscript.TxSigHashes\<close>, \<open>'e\<close> is \<open>*txscript.Engine\<close>. The hash type
  \<open>SigHashAll\<close> and the flags \<open>StandardVerifyFlags\<close> are fixed arguments and are left
  inside the parameters. \<open>Execute\<close> returns \<open>None\<close> for \<open>nil\<close>.
\<close>

record ('h, 'e) TxLib =
  NewTxSigHashes :: "MsgTx \<Rightarrow> 'h"
  CalcWitnessSigHash :: "byte list \<Rightarrow> 'h \<Rightarrow> MsgTx \<Rightarrow> nat \<Rightarrow> int \<Rightarrow> error + byte list"
  CalcSignatureHash :: "byte list \<Rightarrow> MsgTx \<Rightarrow> nat \<Rightarrow> error + byte list"
  IsSorted :: "MsgTx \<Rightarrow> bool"
  NewEngine :: "byte list \<Rightarrow> MsgTx \<Rightarrow> nat \<Rightarrow> 'h \<Rightarrow> int \<Rightarrow> error + 'e"
  Execute :: "'e \<Rightarrow> error option"

text \<open>The loop of \<open>txValidityCheck\<close> over \<open>index, txIn\<close>; \<open>None\<close> is the result \<open>nil\<close>.\<close>

fun checkInputs ::
  "('h, 'e) TxLib \<Rightarrow> MsgTx \<Rightarrow> (OutPoint \<Rightarrow> 'a SpentTxOut option) \<Rightarrow> 'h
     \<Rightarrow> (nat \<times> TxIn) list \<Rightarrow> error option" where
  "checkInputs lib transaction previousOutputs sigHashes [] = None"
| "checkInputs lib transaction previousOutputs sigHashes ((index, txIn) # rest) =
     (case previousOutputs (PreviousOutPoint txIn) of
        None \<Rightarrow> Some (New ''output/input mismatch; there needs to be exactly one output being spent per input'')
      | Some spentOutput \<Rightarrow>
          (case NewEngine lib (PkScript spentOutput) transaction index sigHashes
                  (Value spentOutput) of
             Inl err \<Rightarrow> Some (WithStack err)
           | Inr engine \<Rightarrow>
               (case Execute lib engine of
                  Some err \<Rightarrow> Some (WithStack err)
                | None \<Rightarrow> checkInputs lib transaction previousOutputs sigHashes rest)))"

definition txValidityCheck ::
  "('h, 'e) TxLib \<Rightarrow> MsgTx \<Rightarrow> (OutPoint \<Rightarrow> 'a SpentTxOut option) \<Rightarrow> 'h \<Rightarrow> error option" where
  "txValidityCheck lib transaction previousOutputs sigHashes =
     (if \<not> IsSorted lib transaction then Some (New ''tx not bip69 conformant'')
      else checkInputs lib transaction previousOutputs sigHashes
             (enumerate 0 (TxIn transaction)))"

text \<open>The first loop of \<open>SignTransaction\<close>: one signature hash and one key path per input.\<close>

fun hashLoop ::
  "('h, 'e) TxLib \<Rightarrow> 'a AddressOps \<Rightarrow> MsgTx \<Rightarrow> (OutPoint \<Rightarrow> 'a SpentTxOut option) \<Rightarrow> 'h
     \<Rightarrow> (nat \<times> TxIn) list \<Rightarrow> byte list list \<Rightarrow> string list
     \<Rightarrow> error + (byte list list \<times> string list)" where
  "hashLoop lib ops transaction previousOutputs sigHashes [] signatureHashes keyPaths =
     Inr (signatureHashes, keyPaths)"
| "hashLoop lib ops transaction previousOutputs sigHashes ((index, txIn) # rest)
       signatureHashes keyPaths =
     (case previousOutputs (PreviousOutPoint txIn) of
        None \<Rightarrow> Inl (Panic ''output/input mismatch; there needs to be exactly one output being spent ber input'')
      | Some spentOutput \<Rightarrow>
          (let address = Address spentOutput;
               (isSegwit, subScript) = SigHashData ops address;
               signatureHash =
                 (if isSegwit then
                    (case CalcWitnessSigHash lib subScript sigHashes transaction index
                            (Value spentOutput) of
                       Inl err \<Rightarrow> Inl (WithMessage err ''Failed to calculate SegWit signature hash'')
                     | Inr h \<Rightarrow> Inr h)
                  else
                    (case CalcSignatureHash lib subScript transaction index of
                       Inl err \<Rightarrow> Inl (WithMessage err ''Failed to calculate legacy signature hash'')
                     | Inr h \<Rightarrow> Inr h))
           in case signatureHash of
                Inl err \<Rightarrow> Inl err
              | Inr h \<Rightarrow>
                  hashLoop lib ops transaction previousOutputs sigHashes rest
                    (signatureHashes @ [h]) (keyPaths @ [KeyPath ops address])))"

text \<open>
  The second loop: each input receives the script and witness built from its signature.
  A missing map entry is a \<open>nil\<close> pointer that the loop dereferences.
\<close>

fun assemble ::
  "'a AddressOps \<Rightarrow> (OutPoint \<Rightarrow> 'a SpentTxOut option) \<Rightarrow> TxIn list \<Rightarrow> Signature list
     \<Rightarrow> error + TxIn list" where
  "assemble ops previousOutputs [] signatures = Inr []"
| "assemble ops previousOutputs (input # inputs) signatures =
     (case previousOutputs (PreviousOutPoint input) of
        None \<Rightarrow> Inl (Panic ''nil pointer dereference'')
      | Some spentOutput \<Rightarrow>
          (case signatures of
             [] \<Rightarrow> Inl (Panic ''index out of range'')
           | signature # signatures' \<Rightarrow>
               (let (script, witness) = InputData ops (Address spentOutput) signature
                in case assemble ops previousOutputs inputs signatures' of
                     Inl err \<Rightarrow> Inl err
                   | Inr inputs' \<Rightarrow>
                       Inr (input\<lparr>SignatureScript := script, Witness := witness\<rparr> # inputs'))))"

text \<open>
  \<open>SignTransaction\<close>. The key store is the interface \<open>KeyStoreWithoutKeyDerivation\<close>: its
  method \<open>Sign\<close> is the parameter \<open>keyStoreSign\<close> over the key store's state \<open>'s\<close>. A panic
  inside the key store is not an error value and passes through unwrapped. The result is
  the signed transaction or the error.
\<close>

definition SignTransaction ::
  "('h, 'e) TxLib \<Rightarrow> 'a AddressOps
     \<Rightarrow> ('s \<Rightarrow> byte list list \<Rightarrow> string list \<Rightarrow> (error + Signature list) \<times> 's) \<Rightarrow> 's
     \<Rightarrow> MsgTx \<Rightarrow> (OutPoint \<Rightarrow> 'a SpentTxOut option) \<Rightarrow> (error + MsgTx) \<times> 's" where
  "SignTransaction lib ops keyStoreSign keyStore transaction previousOutputs =
     (let sigHashes = NewTxSigHashes lib transaction in
      case hashLoop lib ops transaction previousOutputs sigHashes
             (enumerate 0 (TxIn transaction)) [] [] of
        Inl err \<Rightarrow> (Inl err, keyStore)
      | Inr (signatureHashes, keyPaths) \<Rightarrow>
          (case keyStoreSign keyStore signatureHashes keyPaths of
             (Inl err, keyStore') \<Rightarrow>
               (case err of
                  Panic m \<Rightarrow> (Inl err, keyStore')
                | _ \<Rightarrow> (Inl (WithMessage err ''Failed to sign signature hash''), keyStore'))
           | (Inr signatures, keyStore') \<Rightarrow>
               if length signatures \<noteq> length (TxIn transaction)
                 then (Inl (Panic ''number of signatures does not match number of inputs''), keyStore')
               else
                 (case assemble ops previousOutputs (TxIn transaction) signatures of
                    Inl err \<Rightarrow> (Inl err, keyStore')
                  | Inr inputs \<Rightarrow>
                      (let transaction' = transaction\<lparr>TxIn := inputs\<rparr> in
                       case txValidityCheck lib transaction' previousOutputs sigHashes of
                         Some err \<Rightarrow>
                           (Inl (Panic ''Failed to pass transaction validity check''), keyStore')
                       | None \<Rightarrow> (Inr transaction', keyStore')))))"

section \<open>Reference descriptions and test doubles\<close>

subsection \<open>The wire format of a frame\<close>

text \<open>
  The reports a frame consists of, written down from the format rather than from the
  sending loop: the init report (channel id, command byte, 16-bit length, the first 57
  payload bytes), then continuation reports (channel id, sequence byte, 59 payload bytes
  each), every report filled up to 64 bytes with \<open>0xee\<close>.
\<close>

definition initReport :: "byte list \<Rightarrow> byte list" where
  "initReport msg =
     [0xff, 0, 0, 0, 0xc1, of_nat ((length msg mod 65536) div 256), of_nat (length msg mod 256)]
       @ take 57 msg @ replicate (57 - length msg) 0xee"

function contReports :: "nat \<Rightarrow> byte list \<Rightarrow> byte list list" where
  "contReports seq rb =
     (if rb = [] then []
      else ([0xff, 0, 0, 0, of_nat seq] @ take 59 rb @ replicate (59 - length rb) 0xee)
           # contReports (seq + 1) (drop 59 rb))"
  by pat_completeness auto
termination
  by (relation "measure (\<lambda>(seq, rb). length rb)") auto

text \<open>The number of filler bytes after a message of \<open>n\<close> bytes.\<close>

definition framePadding :: "nat \<Rightarrow> nat" where
  "framePadding n = (if n \<le> 57 then 57 - n else (59 - (n - 57) mod 59) mod 59)"

text \<open>The payload bytes carried by a list of reports, init report first.\<close>

definition payload :: "byte list list \<Rightarrow> byte list" where
  "payload reports = (case reports of [] \<Rightarrow> [] | p # ps \<Rightarrow> drop 7 p @ concat (map (drop 5) ps))"

text \<open>The length an init report declares.\<close>

definition declaredLen :: "byte list \<Rightarrow> nat" where
  "declaredLen p = unat (p ! 5) * 256 + unat (p ! 6)"

subsection \<open>Session state by precedence\<close>

text \<open>
  The session state as the spec words it: each state has a condition on the session
  fields, and the state reported is the first in the precedence order
  bootloader, seeded, logged-in, initialized, uninitialized whose condition holds.
\<close>

definition statusPrecedence :: "Status list" where
  "statusPrecedence =
     [StatusBootloader, StatusSeeded, StatusLoggedIn, StatusInitialized, StatusUninitialized]"

fun statusHolds :: "'c Device \<Rightarrow> Status \<Rightarrow> bool" where
  "statusHolds dbb StatusBootloader = (bootloaderStatus dbb \<noteq> None)"
| "statusHolds dbb StatusSeeded = seeded dbb"
| "statusHolds dbb StatusLoggedIn = (password dbb \<noteq> [])"
| "statusHolds dbb StatusInitialized = initialized dbb"
| "statusHolds dbb StatusUninitialized = True"

subsection \<open>Batches and signatures\<close>

text \<open>Consecutive batches of at most \<open>n\<close> elements.\<close>

function batches :: "nat \<Rightarrow> 'a list \<Rightarrow> 'a list list" where
  "batches n xs = (if n = 0 \<or> xs = [] then [] else take n xs # batches n (drop n xs))"
  by pat_completeness auto
termination
  by (relation "measure (\<lambda>(n, xs). length xs)") auto

text \<open>The signing command for one batch of (hash, keyPath) pairs.\<close>

definition signCmd :: "(byte list \<times> string) list \<Rightarrow> json" where
  "signCmd b =
     JObject [(''sign'', JObject [(''data'', JArray (map (\<lambda>(h, kp).
        JObject [(''hash'', JString (EncodeToString h)), (''keypath'', JString kp)]) b))])]"

text \<open>
  A signature field of exactly 128 hexadecimal characters, and the signature it stands
  for: \<open>R\<close> from the first 64 characters and \<open>S\<close> from the last 64, each an unsigned
  number with the most significant digit first.
\<close>

definition isHex128 :: "string \<Rightarrow> bool" where
  "isHex128 s = (length s = 128 \<and> list_all (\<lambda>ch. hexDigitVal ch \<noteq> None) s)"

definition hexValue :: "string \<Rightarrow> nat" where
  "hexValue s = foldl (\<lambda>acc ch. acc * 16 + the (hexDigitVal ch)) 0 s"

definition sigOf :: "string \<Rightarrow> Signature" where
  "sigOf s = Signature (int (hexValue (take 64 s))) (int (hexValue (drop 64 s)))"

subsection \<open>Test doubles for the communication interface\<close>

text \<open>A request as an implementation of the interface sees it.\<close>

datatype request = PlainRequest json | EncryptRequest json string

text \<open>\<open>recording ci\<close> behaves as \<open>ci\<close> and keeps the list of the requests it was sent.\<close>

definition recording :: "'c CommunicationInterface \<Rightarrow> ('c \<times> request list) CommunicationInterface" where
  "recording ci =
     \<lparr>SendPlain = (\<lambda>msg (c, log).
        case SendPlain ci msg c of (r, c') \<Rightarrow> (r, (c', log @ [PlainRequest msg]))),
      SendEncrypt = (\<lambda>msg pw (c, log).
        case SendEncrypt ci msg pw c of (r, c') \<Rightarrow> (r, (c', log @ [EncryptRequest msg pw])))\<rparr>"

text \<open>
  A mock that answers from a script: every request takes the next scripted answer; an
  exhausted script is a transport error.
\<close>

definition scripted :: "((error + reply) list) CommunicationInterface" where
  "scripted =
     \<lparr>SendPlain = (\<lambda>msg rs. case rs of [] \<Rightarrow> (Inl EOF, []) | r # rs' \<Rightarrow> (r, rs')),
      SendEncrypt = (\<lambda>msg pw rs. case rs of [] \<Rightarrow> (Inl EOF, []) | r # rs' \<Rightarrow> (r, rs'))\<rparr>"

text \<open>
  A mock signing backend. It answers a signing command first with an echo and, when the
  command comes again, with one signature field per entry of the command, in the order
  of the entries; the field for an entry is \<open>sg hash keypath\<close>. Its state tells whether
  the echo has been given.
\<close>

fun signItem :: "(string \<Rightarrow> string \<Rightarrow> string) \<Rightarrow> json \<Rightarrow> json" where
  "signItem sg (JObject [(k1, JString h), (k2, JString kp)]) = JObject [(''sig'', JString (sg h kp))]"
| "signItem sg j = JNull"

fun signingReply :: "(string \<Rightarrow> string \<Rightarrow> string) \<Rightarrow> json \<Rightarrow> bool \<Rightarrow> (error + reply) \<times> bool" where
  "signingReply sg (JObject [(k1, JObject [(k2, JArray data)])]) echoed =
     (if echoed then (Inr [(''sign'', JArray (map (signItem sg) data))], False)
      else (Inr [(''echo'', JString [])], True))"
| "signingReply sg j echoed = (Inl (New ''unknown command''), echoed)"

definition signingDevice :: "(string \<Rightarrow> string \<Rightarrow> string) \<Rightarrow> bool CommunicationInterface" where
  "signingDevice sg =
     \<lparr>SendPlain = (\<lambda>msg echoed. (Inl (New ''unknown command''), echoed)),
      SendEncrypt = (\<lambda>msg pw echoed. signingReply sg msg echoed)\<rparr>"

text \<open>The extended key that a reply to the \<open>xpub\<close> command carries, as \<open>getXPub\<close> reads it.\<close>

definition xpubOfReply :: "(string \<Rightarrow> error + 'k) \<Rightarrow> error + reply \<Rightarrow> error + 'k" where
  "xpubOfReply NewKeyFromString r =
     (case r of
        Inl err \<Rightarrow> Inl err
      | Inr reply \<Rightarrow>
          (case map_of reply ''xpub'' of
             Some (JString xpubStr) \<Rightarrow> NewKeyFromString xpubStr
           | _ \<Rightarrow> Inl (WithStack (New ''Unexpected reply''))))"

text \<open>
  What the final check asks of one input: the output it spends is known, and the script
  engine built from that output's locking script and value, the transaction and the
  input's index executes without error.
\<close>

definition inputVerifies ::
  "('h, 'e) TxLib \<Rightarrow> MsgTx \<Rightarrow> (OutPoint \<Rightarrow> 'a SpentTxOut option) \<Rightarrow> 'h \<Rightarrow> nat \<Rightarrow> TxIn \<Rightarrow> bool" where
  "inputVerifies lib transaction previousOutputs sigHashes index txIn =
     (case previousOutputs (PreviousOutPoint txIn) of
        None \<Rightarrow> False
      | Some spentOutput \<Rightarrow>
          (case NewEngine lib (PkScript spentOutput) transaction index sigHashes (Value spentOutput) of
             Inl err \<Rightarrow> False
           | Inr engine \<Rightarrow> Execute lib engine = None))"

declare sendCont.simps [simp del]
declare readCont.simps [simp del]
declare contReports.simps [simp del]
declare batches.simps [simp del]
declare SignLoop.simps [simp del]

section \<open>The framing round trip\<close>

lemma hwwCMD_value: "hwwCMD = 0xc1"
  by (simp add: hwwCMD_def u2fHIDVendorFirst_def u2fHIDTypeInit_def)

lemma send_loopback:
  "length h \<le> 64 \<Longrightarrow> send h rb dev =
     Inr (drop (64 - length h) rb,
          dev @ [h @ take (64 - length h) rb @ replicate (64 - length h - length rb) 0xee])"
  by (simp add: send_def dev_Write_def usbReportSize_def Let_def min_def)

lemma sendCont_loopback: "sendCont seq rb dev = Inr (dev @ contReports seq rb)"
proof (induction seq rb dev rule: sendCont.induct)
  case (1 seq rb dev)
  show ?case
  proof (cases "rb = []")
    case True
    then show ?thesis by (simp add: contReports.simps sendCont.simps)
  next
    case False
    let ?p = "[0xff, 0, 0, 0, of_nat seq] @ take 59 rb @ replicate (59 - length rb) 0xee"
    have s: "send (hwwCID @ [of_nat seq]) rb dev = Inr (drop 59 rb, dev @ [?p])"
      using send_loopback [of "hwwCID @ [of_nat seq]" rb dev] by (simp add: hwwCID_def)
    have "sendCont (seq + 1) (drop 59 rb) (dev @ [?p])
          = Inr ((dev @ [?p]) @ contReports (seq + 1) (drop 59 rb))"
      using False s by (intro "1.IH") auto
    then show ?thesis
      using False s by (subst sendCont.simps, subst contReports.simps) simp
  qed
qed

lemma sendFrame_loopback:
  "msg \<noteq> [] \<Longrightarrow> sendFrame msg dev = Inr (dev @ initReport msg # contReports 0 (drop 57 msg))"
  using send_loopback [of "hwwCID @ [hwwCMD] @ [of_nat ((length msg mod 65536) div 256), of_nat (length msg mod 65536 mod 256)]" msg dev]
  by (simp add: sendFrame_def Let_def hwwCID_def hwwCMD_value sendCont_loopback initReport_def mod_mod_cancel)

lemma pad59_drop:
  "rb \<noteq> [] \<Longrightarrow>
   replicate (59 - length rb) (0xee :: byte) @ drop 59 rb @
     replicate ((59 - length (drop 59 rb) mod 59) mod 59) 0xee
   = drop 59 rb @ replicate ((59 - length rb mod 59) mod 59) 0xee"
proof (cases "length rb < 59")
  case True
  assume "rb \<noteq> []"
  with True show ?thesis by simp
next
  case False
  then have "(length rb - 59) mod 59 = length rb mod 59"
    by (simp add: le_mod_geq)
  with False show ?thesis by simp
qed

lemma readCont_contReports:
  "(rb = [] \<and> dataLen \<le> idx) \<or> (rb \<noteq> [] \<and> idx + length rb = dataLen) \<Longrightarrow>
   readCont (contReports seq rb) dataLen idx data =
     Inr (data @ rb @ replicate ((59 - length rb mod 59) mod 59) 0xee, [])"
proof (induction seq rb arbitrary: idx data rule: contReports.induct)
  case (1 seq rb)
  show ?case
  proof (cases "rb = []")
    case True
    with "1.prems" show ?thesis by (simp add: contReports.simps readCont.simps)
  next
    case False
    with "1.prems" have lt: "idx < dataLen" and len: "idx + length rb = dataLen" by auto
    let ?p = "[0xff, 0, 0, 0, of_nat seq] @ take 59 rb @ replicate (59 - length rb) 0xee"
    have lp: "length ?p = 64" by (simp add: min_def)
    have dp: "drop 5 ?p = take 59 rb @ replicate (59 - length rb) 0xee" by simp
    have step: "readCont (contReports seq rb) dataLen idx data =
        readCont (contReports (seq + 1) (drop 59 rb)) dataLen (idx + 59)
          (data @ take 59 rb @ replicate (59 - length rb) 0xee)"
      using False lt lp dp
      by (subst contReports.simps, subst readCont.simps)
         (simp add: dev_Read_def usbReportSize_def min_def del: append_assoc)
    have H: "(drop 59 rb = [] \<and> dataLen \<le> idx + 59) \<or>
             (drop 59 rb \<noteq> [] \<and> idx + 59 + length (drop 59 rb) = dataLen)"
      using len by auto
    have "readCont (contReports (seq + 1) (drop 59 rb)) dataLen (idx + 59)
            (data @ take 59 rb @ replicate (59 - length rb) 0xee) =
          Inr ((data @ take 59 rb @ replicate (59 - length rb) 0xee) @ drop 59 rb @
               replicate ((59 - length (drop 59 rb) mod 59) mod 59) 0xee, [])"
      using False H by (intro "1.IH") auto
    also have "(data @ take 59 rb @ replicate (59 - length rb) 0xee) @ drop 59 rb @
               replicate ((59 - length (drop 59 rb) mod 59) mod 59) 0xee
             = data @ (take 59 rb @ drop 59 rb) @ replicate ((59 - length rb mod 59) mod 59) 0xee"
      using pad59_drop [OF False] by simp
    finally show ?thesis using step by simp
  qed
qed

lemma payload_contReports:
  "concat (map (drop 5) (contReports seq rb)) = rb @ replicate ((59 - length rb mod 59) mod 59) 0xee"
proof (induction seq rb rule: contReports.induct)
  case (1 seq rb)
  show ?case
  proof (cases "rb = []")
    case True
    then show ?thesis by (simp add: contReports.simps)
  next
    case False
    have "concat (map (drop 5) (contReports seq rb)) =
       (take 59 rb @ replicate (59 - length rb) 0xee) @ concat (map (drop 5) (contReports (seq + 1) (drop 59 rb)))"
      using False by (subst contReports.simps) simp
    also have "\<dots> = take 59 rb @ (replicate (59 - length rb) 0xee @ drop 59 rb @
        replicate ((59 - length (drop 59 rb) mod 59) mod 59) 0xee)"
      using False "1.IH" by simp
    also have "\<dots> = (take 59 rb @ drop 59 rb) @ replicate ((59 - length rb mod 59) mod 59) 0xee"
      using pad59_drop [OF False] by simp
    finally show ?thesis by simp
  qed
qed

lemma tail_padding:
  "take 57 msg @ replicate (57 - length msg) (0xee :: byte) @ drop 57 msg @
       replicate ((59 - length (drop 57 msg) mod 59) mod 59) 0xee
   = msg @ replicate (framePadding (length msg)) 0xee"
proof (cases "length msg \<le> 57")
  case True
  then show ?thesis by (simp add: framePadding_def)
next
  case False
  have "take 57 msg @ drop 57 msg @ replicate ((59 - (length msg - 57) mod 59) mod 59) (0xee :: byte)
      = msg @ replicate ((59 - (length msg - 57) mod 59) mod 59) 0xee"
    by (simp flip: append_assoc)
  with False show ?thesis by (simp add: framePadding_def)
qed

lemma payload_frame:
  "payload (initReport msg # contReports 0 (drop 57 msg)) = msg @ replicate (framePadding (length msg)) 0xee"
  using tail_padding [of msg]
  by (simp add: payload_def initReport_def payload_contReports)

lemma declaredLen_initReport: "declaredLen (initReport msg) = length msg mod 65536"
proof -
  have "length msg mod 65536 div 256 < 256" by simp
  then have "length msg mod 65536 div 256 mod 256 = length msg mod 65536 div 256" by simp
  moreover have "length msg mod 65536 mod 256 = length msg mod 256"
    by (simp add: mod_mod_cancel)
  ultimately have "length msg mod 65536 div 256 mod 256 * 256 + length msg mod 256 = length msg mod 65536"
    using div_mult_mod_eq [of "length msg mod 65536" 256] by simp
  then show ?thesis
    by (simp add: declaredLen_def initReport_def unat_of_nat)
qed

lemma readFrame_frame:
  assumes "length msg < 65536"
  shows "readFrame (initReport msg # contReports 0 (drop 57 msg)) =
           Inr (msg @ replicate (framePadding (length msg)) 0xee, [])"
proof -
  have hdr: "length (initReport msg) = 64" by (simp add: initReport_def min_def)
  have d7: "drop 7 (initReport msg) = take 57 msg @ replicate (57 - length msg) 0xee"
    by (simp add: initReport_def)
  have dl: "unat (initReport msg ! 5) * 256 + unat (initReport msg ! 6) = length msg"
    using declaredLen_initReport [of msg] assms by (simp add: declaredLen_def)
  have chk: "initReport msg ! 0 = 0xff" "initReport msg ! 1 = 0" "initReport msg ! 2 = 0"
    "initReport msg ! 3 = 0" "initReport msg ! 4 = hwwCMD"
    by (simp_all add: initReport_def hwwCMD_value)
  have H: "(drop 57 msg = [] \<and> length msg \<le> 57) \<or>
           (drop 57 msg \<noteq> [] \<and> 57 + length (drop 57 msg) = length msg)"
    by auto
  have rf: "readFrame (initReport msg # contReports 0 (drop 57 msg)) =
      readCont (contReports 0 (drop 57 msg)) (length msg) 57
        (take 57 msg @ replicate (57 - length msg) 0xee)"
    using hdr d7 dl chk by (simp add: readFrame_def dev_Read_def usbReportSize_def Let_def)
  have "readCont (contReports 0 (drop 57 msg)) (length msg) 57
        (take 57 msg @ replicate (57 - length msg) 0xee) =
        Inr ((take 57 msg @ replicate (57 - length msg) 0xee) @ drop 57 msg @
           replicate ((59 - length (drop 57 msg) mod 59) mod 59) 0xee, [])"
    using H by (rule readCont_contReports)
  then show ?thesis
    using rf tail_padding [of msg] by simp
qed

text \<open>
  Claim C1, as the code has it. Through the loopback transport, a non-empty message of at
  most 65535 bytes sent with \<open>sendFrame\<close> is read back by \<open>readFrame\<close> as the message
  followed by the \<open>0xee\<close> filler of its last report; the first \<open>len(message)\<close> bytes of
  the result are the message, and the transport is left empty. \<open>readFrame\<close> does not cut
  the result at the declared length.
\<close>

theorem framing_roundtrip_padded:
  assumes "msg \<noteq> []" and "length msg < 65536"
  shows "\<exists>dev data. sendFrame msg [] = Inr dev \<and> readFrame dev = Inr (data, []) \<and>
           data = msg @ replicate (framePadding (length msg)) 0xee \<and>
           take (length msg) data = msg"
  using assms by (simp add: sendFrame_loopback readFrame_frame)

theorem framing_roundtrip_padded_witness:
  "\<exists>dev data. sendFrame (replicate 100 0x41) [] = Inr dev \<and> readFrame dev = Inr (data, []) \<and>
           data = replicate 100 0x41 @ replicate 16 0xee \<and> take 100 data = replicate 100 0x41"
  using framing_roundtrip_padded [of "replicate 100 0x41"] by (simp add: framePadding_def)

text \<open>
  The claim as stated fails: the one-byte message \<open>a\<close> comes back as 57 bytes, and for
  the empty message \<open>sendFrame\<close> writes nothing, so \<open>readFrame\<close> fails on the empty
  transport.
\<close>

theorem framing_roundtrip_counterexample:
  "sendFrame [0x61] [] = Inr [[0xff, 0, 0, 0, 0xc1, 0, 1, 0x61] @ replicate 56 0xee] \<and>
   readFrame [[0xff, 0, 0, 0, 0xc1, 0, 1, 0x61] @ replicate 56 0xee]
     = Inr ([0x61] @ replicate 56 0xee, []) \<and>
   [0x61] @ replicate 56 0xee \<noteq> [0x61 :: byte] \<and>
   sendFrame [] [] = Inr [] \<and> readFrame [] = Inl (WithStack EOF)"
  using sendFrame_loopback [of "[0x61]" "[]"] readFrame_frame [of "[0x61]"]
  by (simp add: initReport_def contReports.simps framePadding_def sendFrame_def readFrame_def
      dev_Read_def)

text \<open>
  Claim C10. For a non-empty message \<open>sendFrame\<close> succeeds, the length field of the init
  report is \<open>len(message) mod 2^16\<close> (big-endian), and the reports carry every payload
  byte (the message, then filler). For a message longer than 65535 bytes the declared
  length therefore differs from the length of the message sent.
\<close>

theorem sendFrame_length_field:
  assumes "msg \<noteq> []"
  shows "\<exists>p ps. sendFrame msg [] = Inr (p # ps) \<and>
           declaredLen p = length msg mod 65536 \<and>
           payload (p # ps) = msg @ replicate (framePadding (length msg)) 0xee \<and>
           (65535 < length msg \<longrightarrow> declaredLen p \<noteq> length msg)"
proof -
  have "length msg mod 65536 < 65536" by simp
  then have "65535 < length msg \<longrightarrow> length msg mod 65536 \<noteq> length msg"
    by arith
  with assms show ?thesis
    by (simp add: sendFrame_loopback declaredLen_initReport payload_frame)
qed

theorem sendFrame_length_field_witness:
  "replicate 65536 (0 :: byte) \<noteq> [] \<and> 65535 < length (replicate 65536 (0 :: byte)) \<and>
   (\<exists>p ps. sendFrame (replicate 65536 0) [] = Inr (p # ps) \<and> declaredLen p = 0 \<and>
      payload (p # ps) = replicate 65536 0 @ replicate (framePadding 65536) 0xee \<and>
      declaredLen p \<noteq> 65536)"
  using sendFrame_length_field [of "replicate 65536 0"] by simp

section \<open>The device session\<close>

text \<open>
  Claim C6. For every combination of the session fields, \<open>Status\<close> is the first state in
  the precedence order bootloader, seeded, logged-in, initialized, uninitialized whose
  condition holds: Bootloader in bootloader mode, else Seeded if seeded, else LoggedIn if
  the password is non-empty, else Initialized if initialized, else Uninitialized.
\<close>

theorem Status_precedence:
  "Status dbb = hd (filter (statusHolds dbb) statusPrecedence) \<and>
   (Status dbb = StatusBootloader \<longleftrightarrow> bootloaderStatus dbb \<noteq> None) \<and>
   (Status dbb = StatusSeeded \<longleftrightarrow> bootloaderStatus dbb = None \<and> seeded dbb) \<and>
   (Status dbb = StatusLoggedIn \<longleftrightarrow>
      bootloaderStatus dbb = None \<and> \<not> seeded dbb \<and> password dbb \<noteq> []) \<and>
   (Status dbb = StatusInitialized \<longleftrightarrow>
      bootloaderStatus dbb = None \<and> \<not> seeded dbb \<and> password dbb = [] \<and> initialized dbb) \<and>
   (Status dbb = StatusUninitialized \<longleftrightarrow>
      bootloaderStatus dbb = None \<and> \<not> seeded dbb \<and> password dbb = [] \<and> \<not> initialized dbb)"
proof -
  have first: "Status dbb = hd (filter (statusHolds dbb) statusPrecedence)"
    by (simp add: Status_def statusPrecedence_def)
  have each: "(Status dbb = StatusBootloader \<longleftrightarrow> bootloaderStatus dbb \<noteq> None)"
    "(Status dbb = StatusSeeded \<longleftrightarrow> bootloaderStatus dbb = None \<and> seeded dbb)"
    "(Status dbb = StatusLoggedIn \<longleftrightarrow>
        bootloaderStatus dbb = None \<and> \<not> seeded dbb \<and> password dbb \<noteq> [])"
    "(Status dbb = StatusInitialized \<longleftrightarrow>
        bootloaderStatus dbb = None \<and> \<not> seeded dbb \<and> password dbb = [] \<and> initialized dbb)"
    "(Status dbb = StatusUninitialized \<longleftrightarrow>
        bootloaderStatus dbb = None \<and> \<not> seeded dbb \<and> password dbb = [] \<and> \<not> initialized dbb)"
    by (simp_all add: Status_def)
  from first each show ?thesis by (intro conjI)
qed

theorem Status_precedence_witness:
  "Status \<lparr>communication = (), bootloaderStatus = None, initialized = True,
           password = ''pw'', seeded = False\<rparr> = StatusLoggedIn \<and>
   hd (filter (statusHolds \<lparr>communication = (), bootloaderStatus = None, initialized = True,
           password = ''pw'', seeded = False\<rparr>) statusPrecedence) = StatusLoggedIn"
  using Status_precedence [of "\<lparr>communication = (), bootloaderStatus = None, initialized = True,
           password = ''pw'', seeded = False\<rparr>"]
  by (simp add: Status_def)



text \<open>
  Claim C5, as the code has it. After a successful \<open>SetPassword\<close> with a non-empty
  password on a device in the Uninitialized state, the session holds the new password and
  \<open>Status\<close> is LoggedIn: the transition goes from Uninitialized directly to LoggedIn.
\<close>

theorem SetPassword_status:
  assumes "Status dbb = StatusUninitialized"
      and "pw \<noteq> []"
      and "fst (SetPassword ci dbb pw) = Inr ()"
  shows "password (snd (SetPassword ci dbb pw)) = pw \<and>
         Status (snd (SetPassword ci dbb pw)) = StatusLoggedIn"
proof -
  obtain r dbb' where sp: "sendPlain ci dbb ''password'' pw = (r, dbb')"
    by (cases "sendPlain ci dbb ''password'' pw")
  then have same: "bootloaderStatus dbb' = bootloaderStatus dbb" "seeded dbb' = seeded dbb"
    by (auto simp: sendPlain_def split: prod.splits)
  from assms(1) have un: "bootloaderStatus dbb = None" "\<not> seeded dbb"
    by (auto simp: Status_def split: if_splits)
  from assms(3) sp have res: "snd (SetPassword ci dbb pw) = dbb'\<lparr>password := pw\<rparr>"
    by (cases r) (auto simp: SetPassword_def split: if_splits)
  show ?thesis
    using assms(2) same un by (simp add: res Status_def)
qed

theorem SetPassword_status_witness:
  "Status \<lparr>communication = [Inr [(''password'', JString ''success'')]], bootloaderStatus = None,
           initialized = False, password = [], seeded = False\<rparr> = StatusUninitialized \<and>
   fst (SetPassword scripted \<lparr>communication = [Inr [(''password'', JString ''success'')]], bootloaderStatus = None,
           initialized = False, password = [], seeded = False\<rparr> ''secret'') = Inr () \<and>
   Status (snd (SetPassword scripted \<lparr>communication = [Inr [(''password'', JString ''success'')]], bootloaderStatus = None,
           initialized = False, password = [], seeded = False\<rparr> ''secret'')) = StatusLoggedIn"
  using SetPassword_status [of "\<lparr>communication = [Inr [(''password'', JString ''success'')]], bootloaderStatus = None,
           initialized = False, password = [], seeded = False\<rparr>" "''secret''" scripted]
  by (simp add: SetPassword_def sendPlain_def Status_def scripted_def)

text \<open>
  The claim as stated fails: on an Uninitialized device whose reply to the password
  command is \<open>success\<close>, the state after \<open>SetPassword\<close> is not Initialized.
\<close>

theorem SetPassword_counterexample:
  "Status \<lparr>communication = [Inr [(''password'', JString ''success'')]], bootloaderStatus = None,
           initialized = False, password = [], seeded = False\<rparr> = StatusUninitialized \<and>
   fst (SetPassword scripted \<lparr>communication = [Inr [(''password'', JString ''success'')]], bootloaderStatus = None,
           initialized = False, password = [], seeded = False\<rparr> ''secret'') = Inr () \<and>
   Status (snd (SetPassword scripted \<lparr>communication = [Inr [(''password'', JString ''success'')]], bootloaderStatus = None,
           initialized = False, password = [], seeded = False\<rparr> ''secret'')) \<noteq> StatusInitialized"
  by (simp add: SetPassword_def sendPlain_def Status_def scripted_def)

text \<open>
  Claim C7. When the device answers the reset command with a device error whose code is
  user-abort or touch-timeout, \<open>Reset\<close> returns \<open>(false, nil)\<close>. When the device
  answers \<open>success\<close>, \<open>Reset\<close> returns \<open>(true, nil)\<close>; and whenever it returns true, the
  password is cleared and the seeded and initialized flags are false, so that \<open>Status\<close>
  of a device that is not in bootloader mode is Uninitialized.
\<close>

theorem Reset_outcomes:
  assumes "SendEncrypt ci (JObject [(''reset'', JString ''__ERASE__'')]) (password dbb)
             (communication dbb) = (r, c')"
  shows "(\<forall>err m code. r = Inl err \<and> Cause err = DBBError m code \<and>
             (code = ErrTouchAbort \<or> code = ErrTouchTimeout) \<longrightarrow>
            fst (Reset ErrTouchAbort ErrTouchTimeout ci dbb) = Inr False) \<and>
         (\<forall>reply. r = Inr reply \<and> map_of reply ''reset'' = Some (JString ''success'') \<longrightarrow>
            fst (Reset ErrTouchAbort ErrTouchTimeout ci dbb) = Inr True) \<and>
         (fst (Reset ErrTouchAbort ErrTouchTimeout ci dbb) = Inr True \<longrightarrow>
            password (snd (Reset ErrTouchAbort ErrTouchTimeout ci dbb)) = [] \<and>
            \<not> seeded (snd (Reset ErrTouchAbort ErrTouchTimeout ci dbb)) \<and>
            \<not> initialized (snd (Reset ErrTouchAbort ErrTouchTimeout ci dbb)) \<and>
            (bootloaderStatus dbb = None \<longrightarrow>
               Status (snd (Reset ErrTouchAbort ErrTouchTimeout ci dbb)) = StatusUninitialized))"
  using assms
  by (auto simp: Reset_def sendKV_def sendJ_def IsErrorAbort_def Status_def
           split: prod.splits sum.splits if_splits)

theorem Reset_outcomes_witness:
  "fst (Reset 600 601 scripted
          \<lparr>communication = [Inl (WithMessage (DBBError ''aborted by user'' 600) ''Failed to send cipher text'')],
           bootloaderStatus = None, initialized = True, password = ''pw'', seeded = True\<rparr>) = Inr False \<and>
   fst (Reset 600 601 scripted
          \<lparr>communication = [Inr [(''reset'', JString ''success'')]],
           bootloaderStatus = None, initialized = True, password = ''pw'', seeded = True\<rparr>) = Inr True \<and>
   Status (snd (Reset 600 601 scripted
          \<lparr>communication = [Inr [(''reset'', JString ''success'')]],
           bootloaderStatus = None, initialized = True, password = ''pw'', seeded = True\<rparr>))
     = StatusUninitialized"
  using Reset_outcomes [of scripted
          "\<lparr>communication = [Inl (WithMessage (DBBError ''aborted by user'' 600) ''Failed to send cipher text'')],
           bootloaderStatus = None, initialized = True, password = ''pw'', seeded = True\<rparr>"
          "Inl (WithMessage (DBBError ''aborted by user'' 600) ''Failed to send cipher text'')" "[]" 600 601]
        Reset_outcomes [of scripted
          "\<lparr>communication = [Inr [(''reset'', JString ''success'')]],
           bootloaderStatus = None, initialized = True, password = ''pw'', seeded = True\<rparr>"
          "Inr [(''reset'', JString ''success'')]" "[]" 600 601]
  by (simp add: scripted_def)

lemma getXPub_recording:
  assumes "communication dbb = (c0, log)"
      and "SendEncrypt ci (JObject [(''xpub'', JString path)]) (password dbb) c0 = (r, c1)"
  shows "getXPub (recording ci) nk dbb path =
           (xpubOfReply nk r,
            dbb\<lparr>communication := (c1, log @ [EncryptRequest (JObject [(''xpub'', JString path)]) (password dbb)])\<rparr>)"
  using assms
  by (cases r)
     (simp_all add: getXPub_def sendKV_def sendJ_def recording_def xpubOfReply_def
           split: option.splits json.splits)

text \<open>
  Claim C3, as the code has it. \<open>XPub\<close> over a recording interface, with \<open>r1\<close> and \<open>r2\<close>
  the device's answers to two successive \<open>xpub\<close> queries for the path: if the first
  answer yields no key, \<open>XPub\<close> fails with that error after this one query; otherwise it
  sends the same query a second time. If both answers yield keys whose string forms
  differ, the result is the inconsistency error. A key is returned only if both answers
  yield keys with the same string form, and it is the first one.
\<close>

theorem XPub_dual_read:
  assumes "communication dbb = (c0, log)"
      and "SendEncrypt ci (JObject [(''xpub'', JString path)]) (password dbb) c0 = (r1, c1)"
      and "SendEncrypt ci (JObject [(''xpub'', JString path)]) (password dbb) c1 = (r2, c2)"
  shows "(\<forall>e. xpubOfReply nk r1 = Inl e \<longrightarrow>
            fst (XPub (recording ci) nk str dbb path) = Inl e \<and>
            snd (communication (snd (XPub (recording ci) nk str dbb path))) =
              log @ [EncryptRequest (JObject [(''xpub'', JString path)]) (password dbb)]) \<and>
         (\<forall>k1. xpubOfReply nk r1 = Inr k1 \<longrightarrow>
            snd (communication (snd (XPub (recording ci) nk str dbb path))) =
              log @ [EncryptRequest (JObject [(''xpub'', JString path)]) (password dbb),
                     EncryptRequest (JObject [(''xpub'', JString path)]) (password dbb)]) \<and>
         (\<forall>k1 k2. xpubOfReply nk r1 = Inr k1 \<and> xpubOfReply nk r2 = Inr k2 \<and> str k1 \<noteq> str k2 \<longrightarrow>
            fst (XPub (recording ci) nk str dbb path) =
              Inl (WithStack (New ''Critical: the device returned inconsistent xpubs''))) \<and>
         (\<forall>k. fst (XPub (recording ci) nk str dbb path) = Inr k \<longrightarrow>
            xpubOfReply nk r1 = Inr k \<and> (\<exists>k2. xpubOfReply nk r2 = Inr k2 \<and> str k = str k2))"
proof -
  let ?req = "EncryptRequest (JObject [(''xpub'', JString path)]) (password dbb)"
  let ?dbb1 = "dbb\<lparr>communication := (c1, log @ [?req])\<rparr>"
  let ?dbb2 = "?dbb1\<lparr>communication := (c2, (log @ [?req]) @ [?req])\<rparr>"
  have g1: "getXPub (recording ci) nk dbb path = (xpubOfReply nk r1, ?dbb1)"
    using assms(1,2) by (rule getXPub_recording)
  have g2: "getXPub (recording ci) nk ?dbb1 path = (xpubOfReply nk r2, ?dbb2)"
    using getXPub_recording [of ?dbb1 c1 "log @ [?req]" ci path r2 c2 nk] assms(3) by simp
  show ?thesis
    by (cases "xpubOfReply nk r1"; cases "xpubOfReply nk r2") (simp_all add: XPub_def g1 g2)
qed

theorem XPub_dual_read_witness:
  "fst (XPub (recording scripted) Inr (\<lambda>k. k)
         \<lparr>communication = ([Inr [(''xpub'', JString ''xpubA'')], Inr [(''xpub'', JString ''xpubB'')]], []),
          bootloaderStatus = None, initialized = True, password = ''pw'', seeded = True\<rparr> ''m/44'')
     = Inl (WithStack (New ''Critical: the device returned inconsistent xpubs'')) \<and>
   snd (communication (snd (XPub (recording scripted) Inr (\<lambda>k. k)
         \<lparr>communication = ([Inr [(''xpub'', JString ''xpubA'')], Inr [(''xpub'', JString ''xpubB'')]], []),
          bootloaderStatus = None, initialized = True, password = ''pw'', seeded = True\<rparr> ''m/44'')))
     = [EncryptRequest (JObject [(''xpub'', JString ''m/44'')]) ''pw'',
        EncryptRequest (JObject [(''xpub'', JString ''m/44'')]) ''pw'']"
  using XPub_dual_read [of
         "\<lparr>communication = ([Inr [(''xpub'', JString ''xpubA'')], Inr [(''xpub'', JString ''xpubB'')]], []),
          bootloaderStatus = None, initialized = True, password = ''pw'', seeded = True\<rparr>"
         "[Inr [(''xpub'', JString ''xpubA'')], Inr [(''xpub'', JString ''xpubB'')]]" "[]"
         scripted "''m/44''" "Inr [(''xpub'', JString ''xpubA'')]" "[Inr [(''xpub'', JString ''xpubB'')]]"
         "Inr [(''xpub'', JString ''xpubB'')]" "[]" Inr "\<lambda>k. k"]
  by (simp add: scripted_def xpubOfReply_def)

text \<open>
  The claim as stated fails: when the first answer is an error, the device is queried
  once, not twice.
\<close>

theorem XPub_counterexample:
  "XPub (recording scripted) Inr (\<lambda>k. k)
         \<lparr>communication = ([Inl (DBBError ''busy'' 1), Inr [(''xpub'', JString ''xpubA'')]], []),
          bootloaderStatus = None, initialized = True, password = ''pw'', seeded = True\<rparr> ''m/44''
     = (Inl (DBBError ''busy'' 1),
        \<lparr>communication = ([Inr [(''xpub'', JString ''xpubA'')]],
                           [EncryptRequest (JObject [(''xpub'', JString ''m/44'')]) ''pw'']),
          bootloaderStatus = None, initialized = True, password = ''pw'', seeded = True\<rparr>)"
  by (simp add: XPub_def getXPub_def sendKV_def sendJ_def recording_def scripted_def)

section \<open>Signing in batches\<close>

lemma hexDigitVal_sign: "hexDigitVal (CHR ''-'') = None" "hexDigitVal (CHR ''+'') = None"
  by (simp_all add: hexDigitVal_def)

lemma scanDigits_hex:
  "list_all (\<lambda>ch. hexDigitVal ch \<noteq> None) ds \<Longrightarrow>
   scanDigits ds acc = Some (foldl (\<lambda>acc ch. acc * 16 + the (hexDigitVal ch)) acc ds)"
  by (induction ds arbitrary: acc) auto

lemma SetString16_hex:
  assumes "ds \<noteq> []" and "list_all (\<lambda>ch. hexDigitVal ch \<noteq> None) ds"
  shows "SetString16 ds = Some (int (hexValue ds))"
proof -
  obtain ch r where ds: "ds = ch # r" using assms(1) by (cases ds) auto
  with assms(2) have "hexDigitVal ch \<noteq> None" by simp
  then have "ch \<noteq> CHR ''-''" "ch \<noteq> CHR ''+''" using hexDigitVal_sign by auto
  then show ?thesis
    using scanDigits_hex [OF assms(2), of 0] ds
    by (simp add: SetString16_def hexValue_def del: scanDigits.simps foldl_Cons)
qed

lemma appendSigs_hex:
  assumes "isHex128 s"
  shows "appendSigs (JObject [(''sig'', JString s)] # sigs) acc = appendSigs sigs (acc @ [sigOf s])"
proof -
  from assms have len: "length s = 128" and hex: "list_all (\<lambda>ch. hexDigitVal ch \<noteq> None) s"
    by (simp_all add: isHex128_def)
  have t: "take 64 s \<noteq> []" "drop 64 s \<noteq> []" using len by auto
  have ht: "list_all (\<lambda>ch. hexDigitVal ch \<noteq> None) (take 64 s)"
    using hex by (auto simp: list_all_iff dest: in_set_takeD)
  have hd: "list_all (\<lambda>ch. hexDigitVal ch \<noteq> None) (drop 64 s)"
    using hex by (auto simp: list_all_iff dest: in_set_dropD)
  show ?thesis
    using len SetString16_hex [OF t(1) ht] SetString16_hex [OF t(2) hd]
    by (simp add: sigOf_def)
qed

lemma appendSigs_signItems:
  "\<forall>(h, kp) \<in> set b. isHex128 (sg (EncodeToString h) kp) \<Longrightarrow>
   appendSigs (map (signItem sg) (map (\<lambda>(h, kp).
        JObject [(''hash'', JString (EncodeToString h)), (''keypath'', JString kp)]) b)) acc
   = Inr (acc @ map (\<lambda>(h, kp). sigOf (sg (EncodeToString h) kp)) b)"
proof (induction b arbitrary: acc)
  case Nil
  then show ?case by simp
next
  case (Cons x b)
  obtain h kp where x: "x = (h, kp)" by (cases x)
  from Cons.prems x have hx: "isHex128 (sg (EncodeToString h) kp)" by simp
  from Cons.prems have rest: "\<forall>(h, kp) \<in> set b. isHex128 (sg (EncodeToString h) kp)" by simp
  show ?case
    using Cons.IH [OF rest] x
    by (simp add: appendSigs_hex [OF hx] del: appendSigs.simps)
qed

lemma signBatch_signingDevice:
  assumes "length hs = length kps" and "length hs \<le> 15" and "communication dbb = (False, log)"
  shows "signBatch (recording (signingDevice sg)) dbb hs kps =
     (Inr [(''sign'', JArray (map (signItem sg) (map (\<lambda>(h, kp).
        JObject [(''hash'', JString (EncodeToString h)), (''keypath'', JString kp)]) (zip hs kps))))],
      dbb\<lparr>communication := (False, log @ [EncryptRequest (signCmd (zip hs kps)) (password dbb),
                                              EncryptRequest (signCmd (zip hs kps)) (password dbb)])\<rparr>)"
  using assms
  by (simp add: signBatch_def signatureBatchSize_def sendJ_def recording_def signingDevice_def
        signCmd_def Let_def)

lemma SignLoop_signingDevice:
  assumes "length hs = length kps"
      and "\<forall>(h, kp) \<in> set (zip hs kps). isHex128 (sg (EncodeToString h) kp)"
      and "communication dbb = (False, log)"
  shows "SignLoop (recording (signingDevice sg)) dbb hs kps i acc =
     (Inr (acc @ map (\<lambda>(h, kp). sigOf (sg (EncodeToString h) kp)) (drop i (zip hs kps))),
      dbb\<lparr>communication := (False, log @ concat (map (\<lambda>b.
              [EncryptRequest (signCmd b) (password dbb), EncryptRequest (signCmd b) (password dbb)])
              (batches 15 (drop i (zip hs kps)))))\<rparr>)"
  using assms(3)
proof (induction "length hs - i" arbitrary: i acc dbb log rule: less_induct)
  case less
  let ?zs = "zip hs kps"
  show ?case
  proof (cases "i < length hs")
    case False
    then have "drop i ?zs = []" using assms(1) by simp
    with False less.prems show ?thesis
      by (subst SignLoop.simps) (simp add: batches.simps)
  next
    case True
    let ?n = "(if i + signatureBatchSize > length hs then length hs else i + signatureBatchSize) - i"
    let ?b = "take 15 (drop i ?zs)"
    let ?req = "EncryptRequest (signCmd ?b) (password dbb)"
    let ?dbb' = "dbb\<lparr>communication := (False, log @ [?req, ?req])\<rparr>"
    have n: "?n = min 15 (length hs - i)" using True by (simp add: signatureBatchSize_def)
    have th: "take ?n (drop i hs) = take 15 (drop i hs)"
      using True by (simp add: signatureBatchSize_def)
    have tk: "take ?n (drop i kps) = take 15 (drop i kps)"
      using True assms(1) by (simp add: signatureBatchSize_def)
    have zb: "zip (take ?n (drop i hs)) (take ?n (drop i kps)) = ?b"
      unfolding th tk by (simp add: take_zip drop_zip)
    have lb: "length (take ?n (drop i hs)) = length (take ?n (drop i kps))"
             "length (take ?n (drop i hs)) \<le> 15"
      using assms(1) by (auto simp: signatureBatchSize_def)
    have sb: "signBatch (recording (signingDevice sg)) dbb (take ?n (drop i hs)) (take ?n (drop i kps)) =
        (Inr [(''sign'', JArray (map (signItem sg) (map (\<lambda>(h, kp).
            JObject [(''hash'', JString (EncodeToString h)), (''keypath'', JString kp)]) ?b)))], ?dbb')"
      using signBatch_signingDevice [OF lb less.prems, of sg] by (simp only: zb)
    have "\<forall>(h, kp) \<in> set ?b. isHex128 (sg (EncodeToString h) kp)"
      using assms(2) by (auto dest!: in_set_takeD in_set_dropD)
    then have ap: "appendSigs (map (signItem sg) (map (\<lambda>(h, kp).
            JObject [(''hash'', JString (EncodeToString h)), (''keypath'', JString kp)]) ?b)) acc
        = Inr (acc @ map (\<lambda>(h, kp). sigOf (sg (EncodeToString h) kp)) ?b)"
      by (rule appendSigs_signItems)
    have IH: "SignLoop (recording (signingDevice sg)) ?dbb' hs kps (i + signatureBatchSize)
           (acc @ map (\<lambda>(h, kp). sigOf (sg (EncodeToString h) kp)) ?b) =
       (Inr ((acc @ map (\<lambda>(h, kp). sigOf (sg (EncodeToString h) kp)) ?b) @
             map (\<lambda>(h, kp). sigOf (sg (EncodeToString h) kp)) (drop (i + signatureBatchSize) ?zs)),
        ?dbb'\<lparr>communication := (False, (log @ [?req, ?req]) @ concat (map (\<lambda>b.
              [EncryptRequest (signCmd b) (password ?dbb'), EncryptRequest (signCmd b) (password ?dbb')])
              (batches 15 (drop (i + signatureBatchSize) ?zs))))\<rparr>)"
      using True by (intro less.hyps) (simp_all add: signatureBatchSize_def)
    have dz: "drop i ?zs \<noteq> []" using True assms(1) by simp
    have bt: "batches 15 (drop i ?zs) = ?b # batches 15 (drop (i + 15) ?zs)"
      using dz by (subst batches.simps) (simp add: add.commute)
    have mp: "map (\<lambda>(h, kp). sigOf (sg (EncodeToString h) kp)) ?b @
              map (\<lambda>(h, kp). sigOf (sg (EncodeToString h) kp)) (drop (i + 15) ?zs)
            = map (\<lambda>(h, kp). sigOf (sg (EncodeToString h) kp)) (drop i ?zs)"
    proof -
      have "?b @ drop (i + 15) ?zs = drop i ?zs"
        using append_take_drop_id [of 15 "drop i ?zs"] by (simp add: add.commute)
      then show ?thesis by (metis map_append)
    qed
    show ?thesis
      using IH [unfolded signatureBatchSize_def]
      by (subst SignLoop.simps, simp only: True if_True Let_def sb)
         (simp add: ap bt mp signatureBatchSize_def del: map_map)
  qed
qed

lemma length_batches: "length (batches 15 xs) = (length xs + 14) div 15"
proof (induction "15::nat" xs rule: batches.induct)
  case (1 xs)
  show ?case
  proof (cases "xs = []")
    case True
    then show ?thesis by (simp add: batches.simps)
  next
    case False
    then have "length (batches 15 xs) = Suc ((length (drop 15 xs) + 14) div 15)"
      using "1.hyps" by (subst batches.simps) simp
    also have "\<dots> = (length xs + 14) div 15"
      using False by (cases "length xs < 15") (auto simp: Suc_leI le_div_geq)
    finally show ?thesis .
  qed
qed

lemma concat_batches: "concat (batches 15 xs) = xs"
proof (induction "15::nat" xs rule: batches.induct)
  case (1 xs)
  show ?case
  proof (cases "xs = []")
    case True
    then show ?thesis by (simp add: batches.simps)
  next
    case False
    then show ?thesis using "1.hyps" by (subst batches.simps) simp
  qed
qed

lemma size_batches: "b \<in> set (batches 15 xs) \<Longrightarrow> 0 < length b \<and> length b \<le> 15"
proof (induction "15::nat" xs rule: batches.induct)
  case (1 xs)
  show ?case
  proof (cases "xs = []")
    case True
    with "1.prems" show ?thesis by (simp add: batches.simps)
  next
    case False
    have "batches 15 xs = take 15 xs # batches 15 (drop 15 xs)"
      using False by (subst batches.simps) simp
    with "1.prems" have "b = take 15 xs \<or> b \<in> set (batches 15 (drop 15 xs))" by simp
    then show ?thesis
      using False "1.hyps" by auto
  qed
qed

text \<open>
  Claim C2. For every non-empty list of (hash, keyPath) pairs of equal lengths, \<open>Sign\<close>
  over the mock signing backend (recorded) returns the signatures of the pairs in the
  order of the pairs, and the requests it sent are, batch after batch, the signing
  command of the batch twice, where the batches are the consecutive batches of at most
  15 pairs: they concatenate to the input, none is empty or longer than 15, and there are
  \<open>(n + 14) div 15\<close> of them (1, 2 and 2 for 15, 16 and 30 pairs).
\<close>

theorem Sign_batches:
  assumes "length hs = length kps" and "hs \<noteq> []"
      and "\<forall>(h, kp) \<in> set (zip hs kps). isHex128 (sg (EncodeToString h) kp)"
      and "communication dbb = (False, [])"
  shows "fst (Sign (recording (signingDevice sg)) dbb hs kps) =
           Inr (map (\<lambda>(h, kp). sigOf (sg (EncodeToString h) kp)) (zip hs kps)) \<and>
         snd (communication (snd (Sign (recording (signingDevice sg)) dbb hs kps))) =
           concat (map (\<lambda>b. [EncryptRequest (signCmd b) (password dbb),
                             EncryptRequest (signCmd b) (password dbb)])
                       (batches 15 (zip hs kps))) \<and>
         concat (batches 15 (zip hs kps)) = zip hs kps \<and>
         (\<forall>b \<in> set (batches 15 (zip hs kps)). 0 < length b \<and> length b \<le> 15) \<and>
         length (batches 15 (zip hs kps)) = (length hs + 14) div 15"
proof -
  have k: "(length hs \<noteq> length kps) = False" using assms(1) by simp
  have e: "(length hs = 0) = False" using assms(2) by simp
  have lp: "SignLoop (recording (signingDevice sg)) dbb hs kps 0 [] =
     (Inr (map (\<lambda>(h, kp). sigOf (sg (EncodeToString h) kp)) (zip hs kps)),
      dbb\<lparr>communication := (False, concat (map (\<lambda>b.
              [EncryptRequest (signCmd b) (password dbb), EncryptRequest (signCmd b) (password dbb)])
              (batches 15 (zip hs kps))))\<rparr>)"
    using SignLoop_signingDevice [OF assms(1) assms(3) assms(4), of 0 "[]"] by simp
  have sz: "\<forall>b \<in> set (batches 15 (zip hs kps)). 0 < length b \<and> length b \<le> 15"
    using size_batches [of _ "zip hs kps"] by blast
  have ln: "length (batches 15 (zip hs kps)) = (length hs + 14) div 15"
    using length_batches [of "zip hs kps"] assms(1) by simp
  have sg: "Sign (recording (signingDevice sg)) dbb hs kps =
      SignLoop (recording (signingDevice sg)) dbb hs kps 0 []"
    by (simp only: Sign_def k e if_False)
  show ?thesis
    unfolding sg lp using sz ln by (simp add: concat_batches)
qed

theorem Sign_batches_witness:
  "fst (Sign (recording (signingDevice (\<lambda>h kp. h @ replicate 126 (CHR ''0''))))
          \<lparr>communication = (False, []), bootloaderStatus = None, initialized = True, password = ''pw'', seeded = True\<rparr>
          [[0], [1], [2], [3], [4], [5], [6], [7], [8], [9], [10], [11], [12], [13], [14], [15]]
          [''m/0'', ''m/1'', ''m/2'', ''m/3'', ''m/4'', ''m/5'', ''m/6'', ''m/7'', ''m/8'', ''m/9'', ''m/10'', ''m/11'', ''m/12'', ''m/13'', ''m/14'', ''m/15''])
     = Inr (map (\<lambda>(h, kp). sigOf (EncodeToString h @ replicate 126 (CHR ''0'')))
             (zip ([[0], [1], [2], [3], [4], [5], [6], [7], [8], [9], [10], [11], [12], [13], [14], [15]] :: byte list list)
                  [''m/0'', ''m/1'', ''m/2'', ''m/3'', ''m/4'', ''m/5'', ''m/6'', ''m/7'', ''m/8'', ''m/9'', ''m/10'', ''m/11'', ''m/12'', ''m/13'', ''m/14'', ''m/15''])) \<and>
   length (batches 15
             (zip ([[0], [1], [2], [3], [4], [5], [6], [7], [8], [9], [10], [11], [12], [13], [14], [15]] :: byte list list)
                  [''m/0'', ''m/1'', ''m/2'', ''m/3'', ''m/4'', ''m/5'', ''m/6'', ''m/7'', ''m/8'', ''m/9'', ''m/10'', ''m/11'', ''m/12'', ''m/13'', ''m/14'', ''m/15''])) = 2"
proof -
  let ?hs = "[[0], [1], [2], [3], [4], [5], [6], [7], [8], [9], [10], [11], [12], [13], [14], [15]] :: byte list list"
  let ?kps = "[''m/0'', ''m/1'', ''m/2'', ''m/3'', ''m/4'', ''m/5'', ''m/6'', ''m/7'', ''m/8'', ''m/9'', ''m/10'', ''m/11'', ''m/12'', ''m/13'', ''m/14'', ''m/15'']"
  let ?dbb = "\<lparr>communication = (False, []), bootloaderStatus = None, initialized = True, password = ''pw'', seeded = True\<rparr>"
  have h1: "length ?hs = length ?kps" by simp
  have h2: "?hs \<noteq> []" by simp
  have h3: "\<forall>(h, kp) \<in> set (zip ?hs ?kps). isHex128 ((\<lambda>h kp. h @ replicate 126 (CHR ''0'')) (EncodeToString h) kp)"
    by (simp add: isHex128_def EncodeToString_def hextable_def hexDigitVal_def list_all_iff)
  have h4: "communication ?dbb = (False, [])" by simp
  note S = Sign_batches [OF h1 h2 h3 h4]
  have "length (batches 15 (zip ?hs ?kps)) = 2"
    using S [THEN conjunct2, THEN conjunct2, THEN conjunct2, THEN conjunct2] by simp
  with S [THEN conjunct1] show ?thesis by (rule conjI)
qed

text \<open>
  Claim C8: what \<open>Sign\<close> does reject. Lists of different lengths and the empty list
  panic. A signature field is an error when its length is not 128 or when one of its
  halves is not accepted by \<open>SetString16\<close>; the strings that \<open>SetString16\<close> accepts are
  the non-empty strings of hexadecimal digits, optionally preceded by a sign.
\<close>

lemma scanDigits_zeros: "scanDigits (replicate n (CHR ''0'') @ s) 0 = scanDigits s 0"
  by (induction n) (simp_all add: hexDigitVal_def)

lemma Sign_length_mismatch:
  "length hs \<noteq> length kps \<Longrightarrow> \<exists>m. Sign ci dbb hs kps = (Inl (Panic m), dbb)"
  by (simp add: Sign_def)

lemma Sign_empty: "\<exists>m. Sign ci dbb [] [] = (Inl (Panic m), dbb)"
  by (simp add: Sign_def)

lemma scanDigits_None_iff:
  "scanDigits ds acc = None \<longleftrightarrow> \<not> list_all (\<lambda>ch. hexDigitVal ch \<noteq> None) ds"
  by (induction ds arbitrary: acc) (auto split: option.splits)

lemma SetString16_accepts_iff:
  "SetString16 s \<noteq> None \<longleftrightarrow>
     (\<exists>ds. ds \<noteq> [] \<and> list_all (\<lambda>ch. hexDigitVal ch \<noteq> None) ds \<and>
           (s = ds \<or> s = CHR ''-'' # ds \<or> s = CHR ''+'' # ds))"
proof (cases s)
  case Nil
  then show ?thesis by (simp add: SetString16_def)
next
  case (Cons ch r)
  consider "ch = CHR ''-''" | "ch = CHR ''+''" | "ch \<noteq> CHR ''-''" "ch \<noteq> CHR ''+''" by blast
  then show ?thesis
  proof cases
    case 1
    then show ?thesis
      using Cons scanDigits_None_iff [of r 0] hexDigitVal_sign
      by (auto simp: SetString16_def split: option.splits)
  next
    case 2
    then show ?thesis
      using Cons scanDigits_None_iff [of r 0] hexDigitVal_sign
      by (auto simp: SetString16_def split: option.splits)
  next
    case 3
    then show ?thesis
      using Cons scanDigits_None_iff [of s 0]
      by (auto simp: SetString16_def split: option.splits simp del: scanDigits.simps)
  qed
qed

lemma appendSigs_rejects:
  assumes "length hexSig \<noteq> 128 \<or> SetString16 (take 64 hexSig) = None \<or>
           SetString16 (drop 64 hexSig) = None"
  shows "\<exists>e. appendSigs (JObject [(''sig'', JString hexSig)] # sigs) acc = Inl e"
  using assms by (auto split: option.splits)

text \<open>
  Claim C8 at a signature field that is not 128 hexadecimal characters: the field of 128
  characters that starts with a minus sign is accepted, and \<open>R\<close> is negative.
\<close>

theorem Sign_accepts_signed_field:
  "\<not> isHex128 (CHR ''-'' # replicate 62 (CHR ''0'') @ CHR ''1'' # replicate 63 (CHR ''0'') @ ''1'') \<and>
   length (CHR ''-'' # replicate 62 (CHR ''0'') @ CHR ''1'' # replicate 63 (CHR ''0'') @ ''1'') = 128 \<and>
   fst (Sign scripted
          \<lparr>communication = [Inr [(''echo'', JString [])], Inr [(''sign'', JArray [JObject [(''sig'', JString (CHR ''-'' # replicate 62 (CHR ''0'') @ CHR ''1'' # replicate 63 (CHR ''0'') @ ''1''))]])]], bootloaderStatus = None, initialized = True, password = ''pw'', seeded = True\<rparr>
          [[0xab]] [''m/0'']) = Inr [Signature (- 1) 1]"
proof -
  have r: "SetString16 (CHR ''-'' # replicate 62 (CHR ''0'') @ ''1'') = Some (- 1)"
    using scanDigits_zeros [of 62 "''1''"] by (simp add: SetString16_def hexDigitVal_def)
  have s: "SetString16 (CHR ''0'' # replicate 62 (CHR ''0'') @ ''1'') = Some 1"
    using scanDigits_zeros [of 62 "''1''"] by (simp add: SetString16_def hexDigitVal_def)
  have e: "replicate 63 (CHR ''0'') = CHR ''0'' # replicate 62 (CHR ''0'')"
    by (simp flip: replicate_Suc)
  have s': "SetString16 (replicate 63 (CHR ''0'') @ ''1'') = Some 1"
    using s by (simp only: e append_Cons)
  have a: "appendSigs [JObject [(''sig'', JString (CHR ''-'' # replicate 62 (CHR ''0'') @ CHR ''1'' # replicate 63 (CHR ''0'') @ ''1''))]] [] = Inr [Signature (- 1) 1]"
    using r s' by simp
  have b: "signBatch scripted
          \<lparr>communication = [Inr [(''echo'', JString [])], Inr [(''sign'', JArray [JObject [(''sig'', JString (CHR ''-'' # replicate 62 (CHR ''0'') @ CHR ''1'' # replicate 63 (CHR ''0'') @ ''1''))]])]], bootloaderStatus = None, initialized = True, password = ''pw'', seeded = True\<rparr>
          [[0xab]] [''m/0''] =
       (Inr [(''sign'', JArray [JObject [(''sig'', JString (CHR ''-'' # replicate 62 (CHR ''0'') @ CHR ''1'' # replicate 63 (CHR ''0'') @ ''1''))]])],
        \<lparr>communication = [], bootloaderStatus = None, initialized = True, password = ''pw'', seeded = True\<rparr>)"
    by (simp add: signBatch_def signatureBatchSize_def sendJ_def scripted_def)
  have l: "fst (Sign scripted
          \<lparr>communication = [Inr [(''echo'', JString [])], Inr [(''sign'', JArray [JObject [(''sig'', JString (CHR ''-'' # replicate 62 (CHR ''0'') @ CHR ''1'' # replicate 63 (CHR ''0'') @ ''1''))]])]], bootloaderStatus = None, initialized = True, password = ''pw'', seeded = True\<rparr>
          [[0xab]] [''m/0'']) = Inr [Signature (- 1) 1]"
    by (simp add: Sign_def SignLoop.simps [of _ _ _ _ 0] SignLoop.simps [of _ _ _ _ 15] signatureBatchSize_def b a
          del: appendSigs.simps)
  show ?thesis
    using l by (simp add: isHex128_def hexDigitVal_def)
qed

section \<open>The final validity check\<close>

lemma checkInputs_Cons:
  "checkInputs lib tx prev sh ((index, txIn) # rest) = None \<longleftrightarrow>
     inputVerifies lib tx prev sh index txIn \<and> checkInputs lib tx prev sh rest = None"
  by (simp add: inputVerifies_def split: option.splits sum.splits)

lemma checkInputs_None_iff:
  "checkInputs lib tx prev sh (enumerate k ins) = None \<longleftrightarrow>
     (\<forall>i < length ins. inputVerifies lib tx prev sh (k + i) (ins ! i))"
proof (induction ins arbitrary: k)
  case Nil
  then show ?case by simp
next
  case (Cons x xs)
  have "(\<forall>i < length (x # xs). inputVerifies lib tx prev sh (k + i) ((x # xs) ! i)) \<longleftrightarrow>
        inputVerifies lib tx prev sh k x \<and>
        (\<forall>i < length xs. inputVerifies lib tx prev sh (Suc k + i) (xs ! i))"
    by (auto simp: less_Suc_eq_0_disj)
  then show ?case
    using Cons.IH [of "Suc k"]
    by (simp only: enumerate_simps checkInputs_Cons)
qed

lemma assemble_outpoints:
  "assemble ops prev ins sigs = Inr ins' \<Longrightarrow>
     map PreviousOutPoint ins' = map PreviousOutPoint ins \<and> map Sequence ins' = map Sequence ins"
proof (induction ins arbitrary: sigs ins')
  case Nil
  then show ?case by simp
next
  case (Cons x xs)
  then show ?case
    by (auto split: option.splits list.splits sum.splits prod.splits)
qed

lemma txValidityCheck_None_iff:
  "txValidityCheck lib tx prev sh = None \<longleftrightarrow>
     IsSorted lib tx \<and> (\<forall>i < length (TxIn tx). inputVerifies lib tx prev sh i (TxIn tx ! i))"
  using checkInputs_None_iff [of lib tx prev sh 0 "TxIn tx"]
  by (simp add: txValidityCheck_def)

lemma SignTransaction_success:
  assumes "fst (SignTransaction lib ops keyStoreSign keyStore tx prev) = Inr tx'"
  shows "txValidityCheck lib tx' prev (NewTxSigHashes lib tx) = None \<and>
         map PreviousOutPoint (TxIn tx') = map PreviousOutPoint (TxIn tx) \<and>
         TxOut tx' = TxOut tx"
proof (cases "hashLoop lib ops tx prev (NewTxSigHashes lib tx) (enumerate 0 (TxIn tx)) [] []")
  case (Inl err)
  with assms show ?thesis by (simp add: SignTransaction_def)
next
  case (Inr hk)
  obtain hs kps where hk: "hk = (hs, kps)" by (cases hk)
  obtain r ks' where ks: "keyStoreSign keyStore hs kps = (r, ks')"
    by (cases "keyStoreSign keyStore hs kps")
  show ?thesis
  proof (cases r)
    case (Inl err)
    with assms Inr hk ks show ?thesis
      by (cases err) (simp_all add: SignTransaction_def)
  next
    case sg: (Inr sigs)
    show ?thesis
    proof (cases "length sigs \<noteq> length (TxIn tx)")
      case True
      with assms Inr hk ks sg show ?thesis by (simp add: SignTransaction_def)
    next
      case False
      show ?thesis
      proof (cases "assemble ops prev (TxIn tx) sigs")
        case (Inl err)
        with assms Inr hk ks sg False show ?thesis by (simp add: SignTransaction_def)
      next
        case as: (Inr ins)
        show ?thesis
        proof (cases "txValidityCheck lib (tx\<lparr>TxIn := ins\<rparr>) prev (NewTxSigHashes lib tx)")
          case (Some err)
          with assms Inr hk ks sg False as show ?thesis by (simp add: SignTransaction_def)
        next
          case None
          with assms Inr hk ks sg False as have "tx' = tx\<lparr>TxIn := ins\<rparr>"
            by (simp add: SignTransaction_def)
          with None assemble_outpoints [OF as] show ?thesis by simp
        qed
      qed
    qed
  qed
qed

text \<open>
  Claim C4. \<open>txValidityCheck\<close> passes exactly when the transaction is in canonical
  order (the library's \<open>IsSorted\<close>) and, for every input, the script engine built from
  the locking script and value of the output it spends executes without error. Whenever
  \<open>SignTransaction\<close> returns a transaction, that transaction passes the check, so a
  failure of either part for any input fails the whole call; and the transaction
  returned has its inputs and outputs in the order they were given.
\<close>

theorem SignTransaction_validity:
  "(txValidityCheck lib tx prev sh = None \<longleftrightarrow>
      IsSorted lib tx \<and> (\<forall>i < length (TxIn tx). inputVerifies lib tx prev sh i (TxIn tx ! i))) \<and>
   (fst (SignTransaction lib ops keyStoreSign keyStore tx prev) = Inr tx' \<longrightarrow>
      txValidityCheck lib tx' prev (NewTxSigHashes lib tx) = None \<and>
      IsSorted lib tx' \<and>
      (\<forall>i < length (TxIn tx').
         inputVerifies lib tx' prev (NewTxSigHashes lib tx) i (TxIn tx' ! i)) \<and>
      map PreviousOutPoint (TxIn tx') = map PreviousOutPoint (TxIn tx) \<and>
      TxOut tx' = TxOut tx)"
proof (intro conjI impI)
  show "txValidityCheck lib tx prev sh = None \<longleftrightarrow>
      IsSorted lib tx \<and> (\<forall>i < length (TxIn tx). inputVerifies lib tx prev sh i (TxIn tx ! i))"
    by (rule txValidityCheck_None_iff)
next
  assume s: "fst (SignTransaction lib ops keyStoreSign keyStore tx prev) = Inr tx'"
  note S = SignTransaction_success [OF s]
  note V = S [THEN conjunct1, unfolded txValidityCheck_None_iff]
  show "txValidityCheck lib tx' prev (NewTxSigHashes lib tx) = None" using S by simp
  show "IsSorted lib tx'" using V by simp
  show "\<forall>i < length (TxIn tx').
         inputVerifies lib tx' prev (NewTxSigHashes lib tx) i (TxIn tx' ! i)" using V by simp
  show "map PreviousOutPoint (TxIn tx') = map PreviousOutPoint (TxIn tx)" using S by simp
  show "TxOut tx' = TxOut tx" using S by simp
qed

theorem SignTransaction_validity_witness:
  "fst (SignTransaction
          \<lparr>NewTxSigHashes = (\<lambda>tx. ()), CalcWitnessSigHash = (\<lambda>s h tx i v. Inr [1]), CalcSignatureHash = (\<lambda>s tx i. Inr [2]), IsSorted = (\<lambda>tx. True), NewEngine = (\<lambda>pk tx i h v. Inr pk), Execute = (\<lambda>e. if e = [0x51] then None else Some (New ''script failed''))\<rparr>
          \<lparr>KeyPath = (\<lambda>a. ''m/0''), SigHashData = (\<lambda>a. (False, [])), InputData = (\<lambda>a sg. ([0x30], []))\<rparr>
          (\<lambda>ks hs kps. (Inr (map (\<lambda>h. Signature 1 1) hs), ks)) ()
          \<lparr>Version = 1, TxIn = [\<lparr>PreviousOutPoint = \<lparr>Hash = [1], Index = 0\<rparr>, SignatureScript = [], Witness = [], Sequence = 0\<rparr>], TxOut = [\<lparr>Value = 90000, PkScript = [0x51]\<rparr>], LockTime = 0\<rparr>
          (\<lambda>op. Some \<lparr>Value = 100000, PkScript = [0x51], Address = ()\<rparr>))
     = Inr \<lparr>Version = 1, TxIn = [\<lparr>PreviousOutPoint = \<lparr>Hash = [1], Index = 0\<rparr>, SignatureScript = [0x30], Witness = [], Sequence = 0\<rparr>], TxOut = [\<lparr>Value = 90000, PkScript = [0x51]\<rparr>], LockTime = 0\<rparr> \<and>
   txValidityCheck
          \<lparr>NewTxSigHashes = (\<lambda>tx. ()), CalcWitnessSigHash = (\<lambda>s h tx i v. Inr [1]), CalcSignatureHash = (\<lambda>s tx i. Inr [2]), IsSorted = (\<lambda>tx. True), NewEngine = (\<lambda>pk tx i h v. Inr pk), Execute = (\<lambda>e. if e = [0x51] then None else Some (New ''script failed''))\<rparr>
          \<lparr>Version = 1, TxIn = [\<lparr>PreviousOutPoint = \<lparr>Hash = [1], Index = 0\<rparr>, SignatureScript = [0x30], Witness = [], Sequence = 0\<rparr>], TxOut = [\<lparr>Value = 90000, PkScript = [0x51]\<rparr>], LockTime = 0\<rparr>
          (\<lambda>op. Some \<lparr>Value = 100000, PkScript = [0x51], Address = ()\<rparr>) () = None \<and>
   fst (SignTransaction
          \<lparr>NewTxSigHashes = (\<lambda>tx. ()), CalcWitnessSigHash = (\<lambda>s h tx i v. Inr [1]), CalcSignatureHash = (\<lambda>s tx i. Inr [2]), IsSorted = (\<lambda>tx. True), NewEngine = (\<lambda>pk tx i h v. Inr pk), Execute = (\<lambda>e. if e = [0x51] then None else Some (New ''script failed''))\<rparr>
          \<lparr>KeyPath = (\<lambda>a. ''m/0''), SigHashData = (\<lambda>a. (False, [])), InputData = (\<lambda>a sg. ([0x30], []))\<rparr>
          (\<lambda>ks hs kps. (Inr (map (\<lambda>h. Signature 1 1) hs), ks)) ()
          \<lparr>Version = 1, TxIn = [\<lparr>PreviousOutPoint = \<lparr>Hash = [1], Index = 0\<rparr>, SignatureScript = [], Witness = [], Sequence = 0\<rparr>], TxOut = [\<lparr>Value = 90000, PkScript = [0x51]\<rparr>], LockTime = 0\<rparr>
          (\<lambda>op. Some \<lparr>Value = 100000, PkScript = [0], Address = ()\<rparr>))
     = Inl (Panic ''Failed to pass transaction validity check'')"
  using SignTransaction_validity [of
          "\<lparr>NewTxSigHashes = (\<lambda>tx. ()), CalcWitnessSigHash = (\<lambda>s h tx i v. Inr [1]), CalcSignatureHash = (\<lambda>s tx i. Inr [2]), IsSorted = (\<lambda>tx. True), NewEngine = (\<lambda>pk tx i h v. Inr pk), Execute = (\<lambda>e. if e = [0x51] then None else Some (New ''script failed''))\<rparr>"
          "\<lparr>Version = 1, TxIn = [\<lparr>PreviousOutPoint = \<lparr>Hash = [1], Index = 0\<rparr>, SignatureScript = [], Witness = [], Sequence = 0\<rparr>], TxOut = [\<lparr>Value = 90000, PkScript = [0x51]\<rparr>], LockTime = 0\<rparr>"
          "(\<lambda>op. Some \<lparr>Value = 100000, PkScript = [0x51], Address = ()\<rparr>)" "()"
          "\<lparr>KeyPath = (\<lambda>a. ''m/0''), SigHashData = (\<lambda>a. (False, [])), InputData = (\<lambda>a sg. ([0x30], []))\<rparr>"
          "(\<lambda>ks hs kps. (Inr (map (\<lambda>h. Signature 1 1) hs), ks))" "()"
          "\<lparr>Version = 1, TxIn = [\<lparr>PreviousOutPoint = \<lparr>Hash = [1], Index = 0\<rparr>, SignatureScript = [0x30], Witness = [], Sequence = 0\<rparr>], TxOut = [\<lparr>Value = 90000, PkScript = [0x51]\<rparr>], LockTime = 0\<rparr>"]
  by (simp add: SignTransaction_def txValidityCheck_def)

end
